theory Spec2Isabelle
  imports Complex_Main
begin

section \<open>Conventions of the embedding\<close>

text \<open>
  The Phoenix trading bot is written in Python. Its floating-point quantities (prices,
  quantities, KRW amounts, clock readings of \<^verbatim>\<open>time.time()\<close>) are embedded as
  \<^typ>\<open>real\<close>: the arithmetic of the source is read as exact arithmetic. Python's
  \<^verbatim>\<open>None\<close> is the \<^term>\<open>None\<close> of an option type, a dict is a map, an exception
  is the \<^term>\<open>Inl\<close> branch of a sum. Clock readings, exchange answers and
  configuration values are explicit arguments of the functions that read them.
\<close>

datatype py_error = ZeroDivisionError | IndexError | TypeError | ApiError

section \<open>Position store (bot/core/position_manager.py)\<close>

text \<open>One tier of the take-profit ladder: \<^verbatim>\<open>{id, name, price, portion, executed}\<close>.\<close>

record tp_level =
  lv_id :: int
  lv_name :: string
  lv_price :: real
  lv_portion :: real
  lv_executed :: bool

text \<open>The trailing-stop record: \<^verbatim>\<open>{enabled, trigger, offset, highest_price}\<close>.\<close>

record trailing =
  tr_enabled :: bool
  tr_trigger :: "real option"
  tr_offset :: "real option"
  tr_highest_price :: "real option"

text \<open>One entry of \<^verbatim>\<open>dca_history\<close>.\<close>

record dca_fill =
  df_qty :: real
  df_price :: real
  df_timestamp :: string

text \<open>
  The informational fields of a position (portfolio weight, AI confidence and reason,
  strategy multipliers, staged-entry parameters). No operation below reads them; they are
  kept together so that the position record stays small.
\<close>

record position_meta =
  pf_weight :: real
  strat_reason :: string
  strength :: real
  ai_confidence :: real
  ai_reason :: string
  position_type :: string
  holding_period :: string
  conf_mult :: real
  time_zone :: string
  time_mult :: real
  tp_mult :: real
  dynamic_mult :: real
  entry_stage :: int
  entry_ratio :: real
  dca_interval :: real
  trend :: string
  atr_grade :: string

record position =
  symbol :: string
  qty :: real
  entry_price :: real
  opened_at :: string
  tp :: "real option"
  sl :: "real option"
  ai_tp :: real
  ai_sl :: real
  dca_stage :: int
  dca_history :: "dca_fill list"
  initial_qty :: real
  tp_levels :: "tp_level list"
  trailing :: "trailing option"
  meta :: position_meta

text \<open>
  The in-memory state of a \<^verbatim>\<open>PositionManager\<close>: the dict \<^verbatim>\<open>positions\<close> and the
  dict \<^verbatim>\<open>sl_hold_until\<close>. \<^verbatim>\<open>_save\<close> writes a snapshot of both to disk and
  swallows its own errors; it does not change the in-memory state and is not modelled.
\<close>

record store =
  positions :: "string \<rightharpoonup> position"
  sl_hold_until :: "string \<rightharpoonup> real"

definition has_position :: "store \<Rightarrow> string \<Rightarrow> bool" where
  "has_position st smb = (positions st smb \<noteq> None)"

definition get_position :: "store \<Rightarrow> string \<Rightarrow> position option" where
  "get_position st smb = positions st smb"

text \<open>
  \<^verbatim>\<open>open_position\<close>: the arguments \<^verbatim>\<open>trailing\<close> and \<^verbatim>\<open>tp_levels\<close> default to
  \<^verbatim>\<open>None\<close>; the record is built and stored under the symbol with no test of what
  the dict holds there; the result is always \<^verbatim>\<open>True\<close>. The argument \<open>now\<close> is the
  formatted reading of \<^verbatim>\<open>datetime.now()\<close>.
\<close>

definition open_position ::
  "store \<Rightarrow> string \<Rightarrow> real \<Rightarrow> real \<Rightarrow> real \<Rightarrow> real \<Rightarrow> real option \<Rightarrow> real option
     \<Rightarrow> trailing option \<Rightarrow> tp_level list option \<Rightarrow> position_meta \<Rightarrow> string
     \<Rightarrow> bool \<times> store" where
  "open_position st smb q price a_tp a_sl strat_tp strat_sl trl lvls m now =
     (let trl' = (case trl of
                    None \<Rightarrow> \<lparr>tr_enabled = False, tr_trigger = None, tr_offset = None,
                             tr_highest_price = Some price\<rparr>
                  | Some t \<Rightarrow> t);
          lvls' = (case lvls of None \<Rightarrow> [] | Some l \<Rightarrow> l);
          new_pos = \<lparr>symbol = smb, qty = q, entry_price = price, opened_at = now,
                     tp = strat_tp, sl = strat_sl, ai_tp = a_tp, ai_sl = a_sl,
                     dca_stage = 0, dca_history = [], initial_qty = q,
                     tp_levels = lvls', trailing = Some trl', meta = m\<rparr>
      in (True, st\<lparr>positions := (positions st)(smb \<mapsto> new_pos)\<rparr>))"

text \<open>
  \<^verbatim>\<open>add_dca\<close>: \<^verbatim>\<open>False\<close> when the symbol has no position; otherwise the new
  average is computed before anything is written, so the division by a zero total
  quantity raises with the store untouched.
\<close>

definition add_dca ::
  "store \<Rightarrow> string \<Rightarrow> real \<Rightarrow> real \<Rightarrow> string \<Rightarrow> py_error + (bool \<times> store)" where
  "add_dca st smb q price now =
     (case positions st smb of
        None \<Rightarrow> Inr (False, st)
      | Some pos \<Rightarrow>
          (let old_qty = qty pos;
               old_entry = entry_price pos;
               new_total_qty = old_qty + q
           in if new_total_qty = 0 then Inl ZeroDivisionError
              else
                (let new_entry = (old_qty * old_entry + q * price) / new_total_qty;
                     pos' = pos\<lparr>qty := new_total_qty, entry_price := new_entry,
                                dca_stage := dca_stage pos + 1,
                                dca_history := dca_history pos @
                                  [\<lparr>df_qty = q, df_price = price, df_timestamp = now\<rparr>]\<rparr>
                 in Inr (True, st\<lparr>positions := (positions st)(smb \<mapsto> pos')\<rparr>))))"

text \<open>A run of DCA fills \<open>(qty, price)\<close> on one symbol, stopping at the first one that
  fails or raises.\<close>

fun add_dca_all ::
  "store \<Rightarrow> string \<Rightarrow> (real \<times> real) list \<Rightarrow> string \<Rightarrow> py_error + (bool \<times> store)" where
  "add_dca_all st smb [] now = Inr (True, st)"
| "add_dca_all st smb (f # fs) now =
     (case add_dca st smb (fst f) (snd f) now of
        Inl e \<Rightarrow> Inl e
      | Inr (ok, st') \<Rightarrow> if ok then add_dca_all st' smb fs now else Inr (False, st'))"

text \<open>The fill-volume-weighted average price of a list of fills \<open>(qty, price)\<close>.\<close>

definition fills_qty :: "(real \<times> real) list \<Rightarrow> real" where
  "fills_qty fs = sum_list (map fst fs)"

definition fills_cost :: "(real \<times> real) list \<Rightarrow> real" where
  "fills_cost fs = sum_list (map (\<lambda>f. fst f * snd f) fs)"

definition vwap :: "(real \<times> real) list \<Rightarrow> real" where
  "vwap fs = fills_cost fs / fills_qty fs"

definition default_meta :: position_meta where
  "default_meta =
     \<lparr>pf_weight = 0, strat_reason = [], strength = 0, ai_confidence = 0, ai_reason = [],
      position_type = ''scalp'', holding_period = [], conf_mult = 1, time_zone = [],
      time_mult = 1, tp_mult = 1, dynamic_mult = 1, entry_stage = 1, entry_ratio = 4 / 10,
      dca_interval = - (5 / 100), trend = ''neutral'', atr_grade = ''mid''\<rparr>"

definition empty_store :: store where
  "empty_store = \<lparr>positions = Map.empty, sl_hold_until = Map.empty\<rparr>"

section \<open>Rate limiter (bot/api/rate_limiter.py)\<close>

text \<open>
  A \<^verbatim>\<open>RateLimiter\<close>: the configuration \<open>max_calls\<close> (a number of calls) and
  \<open>per_seconds\<close>, the deque \<open>calls\<close> of recorded timestamps (oldest first) and the
  four counters of \<^verbatim>\<open>RateLimitStats\<close>.
\<close>

record rate_limiter =
  max_calls :: nat
  per_seconds :: real
  calls :: "real list"
  total_calls :: nat
  blocked_calls :: nat
  rate_limit_hits :: nat
  wait_time_total :: real

definition new_rate_limiter :: "nat \<Rightarrow> real \<Rightarrow> rate_limiter" where
  "new_rate_limiter m w =
     \<lparr>max_calls = m, per_seconds = w, calls = [], total_calls = 0, blocked_calls = 0,
      rate_limit_hits = 0, wait_time_total = 0\<rparr>"

text \<open>\<^verbatim>\<open>_cleanup_old_calls\<close>: pop from the left while the head is strictly older than
  the cutoff.\<close>

definition cleanup_old_calls :: "rate_limiter \<Rightarrow> real \<Rightarrow> rate_limiter" where
  "cleanup_old_calls rl now =
     rl\<lparr>calls := dropWhile (\<lambda>c. c < now - per_seconds rl) (calls rl)\<rparr>"

text \<open>
  \<^verbatim>\<open>acquire(wait)\<close>. The clock is read up to three times: \<open>now\<close> on entry, \<open>now + lag1\<close>
  where the waiting time is computed, and, after the sleep of \<open>wait_time + 0.1\<close> seconds
  (none when \<open>wait_time \<le> 0\<close>), \<open>lag2\<close> later on entry of the retry
  \<^verbatim>\<open>self.acquire(wait=False)\<close>. The result is the returned boolean (or the exception),
  the limiter afterwards and the last clock reading taken. Reading \<^verbatim>\<open>self.calls[0]\<close>
  of an empty deque raises \<^verbatim>\<open>IndexError\<close>.
\<close>

function acquire ::
  "rate_limiter \<Rightarrow> bool \<Rightarrow> real \<Rightarrow> real \<Rightarrow> real \<Rightarrow> (py_error + bool) \<times> rate_limiter \<times> real" where
  "acquire rl False now lag1 lag2 =
     (let rl1 = cleanup_old_calls rl now
      in if length (calls rl1) < max_calls rl1
         then (Inr True, rl1\<lparr>calls := calls rl1 @ [now], total_calls := total_calls rl1 + 1\<rparr>, now)
         else (Inr False,
               rl1\<lparr>rate_limit_hits := rate_limit_hits rl1 + 1,
                   blocked_calls := blocked_calls rl1 + 1\<rparr>, now))"
| "acquire rl True now lag1 lag2 =
     (let rl1 = cleanup_old_calls rl now
      in if length (calls rl1) < max_calls rl1
         then (Inr True, rl1\<lparr>calls := calls rl1 @ [now], total_calls := total_calls rl1 + 1\<rparr>, now)
         else
           (let rl2 = rl1\<lparr>rate_limit_hits := rate_limit_hits rl1 + 1\<rparr>
            in case calls rl2 of
                 [] \<Rightarrow> (Inl IndexError, rl2, now)
               | c0 # _ \<Rightarrow>
                   (let now2 = now + lag1;
                        wait_time = c0 + per_seconds rl2 - now2
                    in if wait_time > 0
                       then acquire (rl2\<lparr>wait_time_total := wait_time_total rl2 + wait_time\<rparr>)
                              False (now2 + (wait_time + 1 / 10) + lag2) 0 0
                       else acquire rl2 False (now2 + lag2) 0 0)))"
  by pat_completeness auto
termination
  by (relation "measure (\<lambda>(rl, w, now, lag1, lag2). if w then 1 else 0)") auto

text \<open>
  A sequential run of \<^verbatim>\<open>acquire\<close> calls. An event is \<open>(wait, gap, lag1, lag2)\<close>: the
  call starts \<open>gap\<close> seconds after the previous clock reading. The run returns the
  grant times, in order (the clock readings at which a call returned \<^verbatim>\<open>True\<close>), the
  limiter and the last clock reading.
\<close>

type_synonym acquire_event = "bool \<times> real \<times> real \<times> real"

definition event_ok :: "acquire_event \<Rightarrow> bool" where
  "event_ok e = (case e of (w, gap, lag1, lag2) \<Rightarrow> 0 \<le> gap \<and> 0 \<le> lag1 \<and> 0 \<le> lag2)"

fun acquire_run ::
  "rate_limiter \<Rightarrow> real \<Rightarrow> acquire_event list \<Rightarrow> real list \<times> rate_limiter \<times> real" where
  "acquire_run rl clk [] = ([], rl, clk)"
| "acquire_run rl clk (e # es) =
     (case e of (w, gap, lag1, lag2) \<Rightarrow>
        (case acquire rl w (clk + gap) lag1 lag2 of (res, rl', t) \<Rightarrow>
           (case acquire_run rl' t es of (gs, rl'', t') \<Rightarrow>
              ((if res = Inr True then [t] else []) @ gs, rl'', t'))))"

text \<open>The number of grant times in the trailing interval \<open>[t - w, t]\<close>.\<close>

definition grants_in_window :: "real \<Rightarrow> real \<Rightarrow> real list \<Rightarrow> nat" where
  "grants_in_window w t gs = length (filter (\<lambda>g. t - w \<le> g \<and> g \<le> t) gs)"

text \<open>
  The invariant of the sliding window at clock reading \<open>clk\<close>, where \<open>old\<close> are the grant
  times already purged: they lie before the window, the deque is sorted, holds no time
  after \<open>clk\<close> and at most \<open>max_calls\<close> entries, and no trailing interval holds more
  than \<open>max_calls\<close> grants.
\<close>

definition window_inv :: "rate_limiter \<Rightarrow> real \<Rightarrow> real list \<Rightarrow> bool" where
  "window_inv rl clk old =
     (list_all (\<lambda>c. c < clk - per_seconds rl) old
      \<and> list_all (\<lambda>c. c \<le> clk) (calls rl)
      \<and> sorted (calls rl)
      \<and> length (calls rl) \<le> max_calls rl
      \<and> (\<forall>t. grants_in_window (per_seconds rl) t (old @ calls rl) \<le> max_calls rl))"

section \<open>TTL cache (bot/utils/cache.py)\<close>

text \<open>A \<^verbatim>\<open>CacheEntry\<close>; the cached value is any Python object, \<^verbatim>\<open>None\<close> included.\<close>

record 'v cache_entry =
  ce_value :: "'v option"
  ce_expires_at :: real
  ce_created_at :: real
  ce_hits :: nat

record 'v cache_manager =
  default_ttl :: real
  cm_cache :: "string \<rightharpoonup> 'v cache_entry"
  st_hits :: nat
  st_misses :: nat
  st_sets :: nat
  st_deletes :: nat
  st_expirations :: nat

text \<open>\<^verbatim>\<open>get\<close>: a missing key is a miss; an entry with \<open>now > expires_at\<close> is deleted and
  counted as a miss and an expiration; otherwise the entry's hit counter is bumped.\<close>

definition cache_get :: "'v cache_manager \<Rightarrow> string \<Rightarrow> real \<Rightarrow> 'v option \<times> 'v cache_manager" where
  "cache_get cm key now =
     (case cm_cache cm key of
        None \<Rightarrow> (None, cm\<lparr>st_misses := st_misses cm + 1\<rparr>)
      | Some entry \<Rightarrow>
          if now > ce_expires_at entry
          then (None, cm\<lparr>cm_cache := (cm_cache cm)(key := None),
                         st_misses := st_misses cm + 1,
                         st_expirations := st_expirations cm + 1\<rparr>)
          else (ce_value entry,
                cm\<lparr>cm_cache := (cm_cache cm)(key \<mapsto> entry\<lparr>ce_hits := ce_hits entry + 1\<rparr>),
                   st_hits := st_hits cm + 1\<rparr>))"

definition cache_set ::
  "'v cache_manager \<Rightarrow> string \<Rightarrow> 'v option \<Rightarrow> real option \<Rightarrow> real \<Rightarrow> 'v cache_manager" where
  "cache_set cm key v ttl now =
     cm\<lparr>cm_cache := (cm_cache cm)(key \<mapsto>
            \<lparr>ce_value = v,
             ce_expires_at = now + (case ttl of Some t \<Rightarrow> t | None \<Rightarrow> default_ttl cm),
             ce_created_at = now, ce_hits = 0\<rparr>),
        st_sets := st_sets cm + 1\<rparr>"

text \<open>
  \<^verbatim>\<open>get_or_set\<close>. The factory is a callable of the caller: it is run on a world state
  \<open>w\<close>, which it may change, and returns a value, \<^verbatim>\<open>None\<close>, or raises. \<open>now1\<close> is the
  clock reading of the lookup, \<open>now2\<close> the one of the store.
\<close>

definition get_or_set ::
  "'v cache_manager \<Rightarrow> string \<Rightarrow> ('w \<Rightarrow> (py_error + 'v option) \<times> 'w) \<Rightarrow> real option
     \<Rightarrow> real \<Rightarrow> real \<Rightarrow> 'w \<Rightarrow> (py_error + 'v option) \<times> 'v cache_manager \<times> 'w" where
  "get_or_set cm key factory ttl now1 now2 w =
     (case cache_get cm key now1 of (v, cm1) \<Rightarrow>
        if v \<noteq> None then (Inr v, cm1, w)
        else (case factory w of
                (Inl e, w') \<Rightarrow> (Inl e, cm1, w')
              | (Inr v', w') \<Rightarrow>
                  if v' \<noteq> None then (Inr v', cache_set cm1 key v' ttl now2, w')
                  else (Inr v', cm1, w')))"

section \<open>Circuit breaker (bot/core/circuit_breaker.py)\<close>

datatype trip_reason =
  ConsecutiveLosses int | DailyLoss real | ApiFailures int

text \<open>
  The configuration and the state of a \<^verbatim>\<open>CircuitBreaker\<close>. Times are seconds,
  \<open>last_reset_date\<close> is a day number. The alert callback only sends messages and is
  not part of the state.
\<close>

record circuit_breaker =
  max_consecutive_losses :: int
  max_daily_loss_pct :: real
  max_api_failures :: int
  cooldown_minutes :: real
  consecutive_losses :: int
  daily_pnl :: real
  daily_pnl_pct :: real
  api_failures :: int
  is_tripped :: bool
  trip_reason :: "trip_reason option"
  trip_time :: "real option"
  last_reset_date :: int

definition new_circuit_breaker :: "int \<Rightarrow> real \<Rightarrow> int \<Rightarrow> real \<Rightarrow> int \<Rightarrow> circuit_breaker" where
  "new_circuit_breaker mcl mdl maf cd today =
     \<lparr>max_consecutive_losses = mcl, max_daily_loss_pct = mdl, max_api_failures = maf,
      cooldown_minutes = cd, consecutive_losses = 0, daily_pnl = 0, daily_pnl_pct = 0,
      api_failures = 0, is_tripped = False, trip_reason = None, trip_time = None,
      last_reset_date = today\<rparr>"

definition daily_reset_check :: "circuit_breaker \<Rightarrow> int \<Rightarrow> circuit_breaker" where
  "daily_reset_check cb today =
     (if today > last_reset_date cb
      then cb\<lparr>daily_pnl := 0, daily_pnl_pct := 0, api_failures := 0, last_reset_date := today\<rparr>
      else cb)"

definition trip :: "circuit_breaker \<Rightarrow> trip_reason \<Rightarrow> real \<Rightarrow> circuit_breaker" where
  "trip cb reason now = cb\<lparr>is_tripped := True, trip_reason := Some reason, trip_time := Some now\<rparr>"

definition check_conditions :: "circuit_breaker \<Rightarrow> real \<Rightarrow> circuit_breaker" where
  "check_conditions cb now =
     (if is_tripped cb then cb
      else if consecutive_losses cb \<ge> max_consecutive_losses cb
        then trip cb (ConsecutiveLosses (consecutive_losses cb)) now
      else if daily_pnl_pct cb \<le> - max_daily_loss_pct cb
        then trip cb (DailyLoss (daily_pnl_pct cb)) now
      else if api_failures cb \<ge> max_api_failures cb
        then trip cb (ApiFailures (api_failures cb)) now
      else cb)"

definition record_trade :: "circuit_breaker \<Rightarrow> real \<Rightarrow> real \<Rightarrow> int \<Rightarrow> real \<Rightarrow> circuit_breaker" where
  "record_trade cb pnl pnl_pct today now =
     (let cb1 = daily_reset_check cb today;
          cb2 = cb1\<lparr>daily_pnl := daily_pnl cb1 + pnl, daily_pnl_pct := daily_pnl_pct cb1 + pnl_pct\<rparr>;
          cb3 = (if pnl < 0 then cb2\<lparr>consecutive_losses := consecutive_losses cb2 + 1\<rparr>
                 else cb2\<lparr>consecutive_losses := 0\<rparr>)
      in check_conditions cb3 now)"

definition record_api_failure :: "circuit_breaker \<Rightarrow> int \<Rightarrow> real \<Rightarrow> circuit_breaker" where
  "record_api_failure cb today now =
     (let cb1 = daily_reset_check cb today;
          cb2 = cb1\<lparr>api_failures := api_failures cb1 + 1\<rparr>
      in check_conditions cb2 now)"

definition record_api_success :: "circuit_breaker \<Rightarrow> circuit_breaker" where
  "record_api_success cb =
     (if api_failures cb > 0 then cb\<lparr>api_failures := max 0 (api_failures cb - 1)\<rparr> else cb)"

definition reset_internal :: "circuit_breaker \<Rightarrow> circuit_breaker" where
  "reset_internal cb =
     cb\<lparr>is_tripped := False, trip_reason := None, trip_time := None,
        consecutive_losses := 0, api_failures := 0\<rparr>"

text \<open>\<^verbatim>\<open>can_trade\<close>: the automatic release is tried only when a trip time is recorded
  and \<open>cooldown_minutes > 0\<close>; the elapsed time is in minutes.\<close>

definition can_trade :: "circuit_breaker \<Rightarrow> real \<Rightarrow> bool \<times> circuit_breaker" where
  "can_trade cb now =
     (if \<not> is_tripped cb then (True, cb)
      else case trip_time cb of
             None \<Rightarrow> (False, cb)
           | Some t \<Rightarrow>
               if cooldown_minutes cb > 0 \<and> (now - t) / 60 \<ge> cooldown_minutes cb
               then (True, reset_internal cb)
               else (False, cb))"

definition reset :: "circuit_breaker \<Rightarrow> bool \<times> circuit_breaker" where
  "reset cb = (if \<not> is_tripped cb then (False, cb) else (True, reset_internal cb))"

section \<open>Configuration and collaborators\<close>

text \<open>The values of \<^verbatim>\<open>Config\<close> that the functions below read; each can be set from
  the process environment.\<close>

record config =
  cfg_mode :: string
  use_realtime_capital :: bool
  base_capital :: real
  capital_safety_margin :: real
  min_order_amount :: int
  position_weight_cap :: real
  max_dca_count :: int
  aggressive_mode :: bool




section \<open>Risk manager (bot/core/risk_manager.py)\<close>

text \<open>Python truthiness of an optional number: \<^verbatim>\<open>None\<close> and zero are false.\<close>

definition truthy :: "real option \<Rightarrow> bool" where
  "truthy x = (case x of None \<Rightarrow> False | Some v \<Rightarrow> v \<noteq> 0)"














section \<open>Position store, continued: update and close\<close>

definition update_position :: "store \<Rightarrow> string \<Rightarrow> position \<Rightarrow> bool \<times> store" where
  "update_position st smb new_pos =
     (if positions st smb = None then (False, st)
      else (True, st\<lparr>positions := (positions st)(smb \<mapsto> new_pos)\<rparr>))"

text \<open>\<^verbatim>\<open>close_position\<close> computes the P&L percentage before it deletes the record: an
  entry price of zero raises and the record stays.\<close>

definition close_position :: "store \<Rightarrow> string \<Rightarrow> real \<Rightarrow> py_error + (bool \<times> store)" where
  "close_position st smb exit_price =
     (case positions st smb of
        None \<Rightarrow> Inr (False, st)
      | Some pos \<Rightarrow>
          if entry_price pos = 0 then Inl ZeroDivisionError
          else Inr (True, st\<lparr>positions := (positions st)(smb := None)\<rparr>))"

text \<open>\<^verbatim>\<open>is_sl_held\<close>: an elapsed hold is deleted by the read.\<close>

definition is_sl_held :: "store \<Rightarrow> string \<Rightarrow> real \<Rightarrow> bool \<times> store" where
  "is_sl_held st smb now =
     (case sl_hold_until st smb of
        None \<Rightarrow> (False, st)
      | Some hold_until \<Rightarrow>
          if now \<ge> hold_until
          then (False, st\<lparr>sl_hold_until := (sl_hold_until st)(smb := None)\<rparr>)
          else (True, st))"

section \<open>Execution engine (bot/core/execution_engine.py)\<close>

subsection \<open>Numbers and symbols\<close>

text \<open>\<^verbatim>\<open>_safe_float(value, default)\<close> on a value that is a number or \<^verbatim>\<open>None\<close>.\<close>

definition safe_float :: "real option \<Rightarrow> real \<Rightarrow> real" where
  "safe_float v d = (case v of None \<Rightarrow> d | Some x \<Rightarrow> x)"



text \<open>Python's \<^verbatim>\<open>int(x)\<close> on a float truncates towards zero.\<close>

definition py_int :: "real \<Rightarrow> int" where
  "py_int x = (if x \<ge> 0 then \<lfloor>x\<rfloor> else \<lceil>x\<rceil>)"

text \<open>\<^verbatim>\<open>s.replace(pat, "")\<close> and \<^verbatim>\<open>s.upper()\<close> on ASCII symbols.\<close>

fun remove_sub :: "string \<Rightarrow> string \<Rightarrow> string" where
  "remove_sub pat [] = []"
| "remove_sub pat (c # cs) =
     (if pat \<noteq> [] \<and> take (length pat) (c # cs) = pat
      then remove_sub pat (drop (length pat - 1) cs)
      else c # remove_sub pat cs)"

definition char_upper :: "char \<Rightarrow> char" where
  "char_upper c =
     (let n = (of_char c :: nat) in if 97 \<le> n \<and> n \<le> 122 then char_of (n - 32) else c)"

definition coin_of :: "string \<Rightarrow> string" where
  "coin_of smb = map char_upper (remove_sub ''-KRW'' (remove_sub ''/KRW'' smb))"

definition LOW_PRICE_COINS :: "string list" where
  "LOW_PRICE_COINS = [''PEPE'', ''SHIB'', ''BONK'', ''FLOKI'', ''LUNC'', ''BTT'', ''WIN'', ''SPELL'']"

definition HIGH_PRICE_COINS :: "string list" where
  "HIGH_PRICE_COINS = [''BTC'', ''ETH'']"

definition get_qty_precision :: "string \<Rightarrow> nat" where
  "get_qty_precision smb =
     (let coin = coin_of smb
      in if coin \<in> set LOW_PRICE_COINS then 0
         else if coin \<in> set HIGH_PRICE_COINS then 8
         else 4)"

definition format_qty :: "string \<Rightarrow> real \<Rightarrow> real" where
  "format_qty smb q =
     (let precision = get_qty_precision smb
      in if precision = 0 then real_of_int (py_int q)
         else real_of_int (py_int (q * 10 ^ precision)) / 10 ^ precision)"

subsection \<open>The exchange and the engine state\<close>

text \<open>
  A value found under a key of an order answer: nothing (the key is missing or holds
  \<^verbatim>\<open>None\<close>), a number, or a string together with what \<^verbatim>\<open>float()\<close> makes of it
  (\<open>None\<close> where \<^verbatim>\<open>float()\<close> raises). A string is true unless it is empty.
\<close>

datatype py_val = PNone | PNum real | PStr string "real option"

text \<open>An order answer of the exchange, with the keys \<^verbatim>\<open>_extract_fill_info\<close> reads
  (\<^verbatim>\<open>average\<close>, \<^verbatim>\<open>price\<close>, \<^verbatim>\<open>filled\<close>, \<^verbatim>\<open>amount\<close>, and in \<^verbatim>\<open>info\<close>:
  \<^verbatim>\<open>average\<close>, \<^verbatim>\<open>price\<close>, \<^verbatim>\<open>units\<close>, \<^verbatim>\<open>filled\<close>).\<close>

record order =
  o_average :: py_val
  o_price :: py_val
  o_filled :: py_val
  o_amount :: py_val
  i_average :: py_val
  i_price :: py_val
  i_units :: py_val
  i_filled :: py_val

text \<open>
  What the engine reads from outside during one call: the price feed (\<open>None\<close> without a
  feed or a price), the ticker's \<open>last\<close>, the total of a coin in the exchange balance
  (by coin name, or the exception of the fetch), the answer of
  \<^verbatim>\<open>create_limit_sell\<close> (an exception, no order, or an order), whether a chat bot
  is connected and whether its send succeeds, and the clock.
\<close>

record exchange =
  ex_feed_price :: "string \<Rightarrow> real option"
  ex_ticker_last :: "string \<Rightarrow> py_error + real option"
  ex_coin_total :: "string \<Rightarrow> py_error + real"
  ex_limit_sell :: "string \<Rightarrow> real \<Rightarrow> py_error + order option"
  ex_telegram :: "bool option"
  ex_now :: real

text \<open>
  The state the engine changes: the position store, the set of symbols with a pending
  approval, the loss streak of the risk manager, and two logs: the calls made to
  \<^verbatim>\<open>create_limit_sell\<close> and the approval requests sent. The slippage tracker, the
  trade logger and the error alerts only record; they are left out.
\<close>

record engine =
  pm :: store
  sl_pending_symbols :: "string set"
  loss_streak :: int
  sell_calls :: "(string \<times> real) list"
  approval_requests :: "(string \<times> string) list"

text \<open>\<^verbatim>\<open>_get_price\<close>: the feed's price when positive, else the ticker's; \<open>None\<close>
  otherwise.\<close>

definition get_price :: "exchange \<Rightarrow> string \<Rightarrow> real option" where
  "get_price ex smb =
     (case ex_feed_price ex smb of
        Some p \<Rightarrow> if p > 0 then Some p
                  else (case ex_ticker_last ex smb of
                          Inr (Some l) \<Rightarrow> if l > 0 then Some l else None
                        | _ \<Rightarrow> None)
      | None \<Rightarrow> (case ex_ticker_last ex smb of
                   Inr (Some l) \<Rightarrow> if l > 0 then Some l else None
                 | _ \<Rightarrow> None))"

text \<open>\<^verbatim>\<open>_get_actual_balance\<close>: any exception gives 0.\<close>

definition get_actual_balance :: "exchange \<Rightarrow> string \<Rightarrow> real" where
  "get_actual_balance ex smb =
     (case ex_coin_total ex (coin_of smb) of Inl e \<Rightarrow> 0 | Inr b \<Rightarrow> b)"

definition truthy_val :: "py_val \<Rightarrow> bool" where
  "truthy_val v = (case v of PNone \<Rightarrow> False | PNum x \<Rightarrow> x \<noteq> 0 | PStr s p \<Rightarrow> s \<noteq> [])"

definition py_or :: "py_val \<Rightarrow> py_val \<Rightarrow> py_val" where
  "py_or x y = (if truthy_val x then x else y)"

text \<open>The conversion applied to a value taken from \<^verbatim>\<open>info\<close>: a string becomes its
  number, or \<^verbatim>\<open>None\<close> where \<^verbatim>\<open>float()\<close> raises.\<close>

definition float_if_str :: "py_val \<Rightarrow> py_val" where
  "float_if_str v =
     (case v of
        PStr s p \<Rightarrow> (case p of None \<Rightarrow> PNone | Some x \<Rightarrow> PNum x)
      | _ \<Rightarrow> v)"

text \<open>
  One of the two values of \<^verbatim>\<open>_extract_fill_info\<close>: the top-level keys first, the keys
  of \<^verbatim>\<open>info\<close> when those give nothing true, the expected value when the result is
  not true or not positive. A true top-level string reaches the comparison with 0, which
  raises \<^verbatim>\<open>TypeError\<close>.
\<close>

definition fill_value :: "py_val \<Rightarrow> py_val \<Rightarrow> py_val \<Rightarrow> py_val \<Rightarrow> real \<Rightarrow> py_error + real" where
  "fill_value a b ia ib expected =
     (let v0 = py_or a b;
          v1 = (if \<not> truthy_val v0 then float_if_str (py_or ia ib) else v0)
      in if \<not> truthy_val v1 then Inr expected
         else case v1 of
                PNone \<Rightarrow> Inr expected
              | PNum x \<Rightarrow> if x \<le> 0 then Inr expected else Inr x
              | PStr s p \<Rightarrow> Inl TypeError)"

definition extract_fill_info :: "order \<Rightarrow> real \<Rightarrow> real \<Rightarrow> py_error + (real \<times> real)" where
  "extract_fill_info ord expected_price expected_qty =
     (case fill_value (o_average ord) (o_price ord) (i_average ord) (i_price ord) expected_price of
        Inl e \<Rightarrow> Inl e
      | Inr actual_price \<Rightarrow>
          (case fill_value (o_filled ord) (o_amount ord) (i_units ord) (i_filled ord) expected_qty of
             Inl e \<Rightarrow> Inl e
           | Inr actual_qty \<Rightarrow> Inr (actual_price, actual_qty)))"

definition register_trade_result :: "int \<Rightarrow> real \<Rightarrow> int" where
  "register_trade_result streak profit_krw = (if profit_krw < 0 then streak + 1 else 0)"

subsection \<open>Approval requests and market sell\<close>

definition request_sell_approval ::
  "engine \<Rightarrow> exchange \<Rightarrow> string \<Rightarrow> position \<Rightarrow> real \<Rightarrow> string \<Rightarrow> bool \<times> engine" where
  "request_sell_approval eng ex smb pos current_price sell_type =
     (if smb \<in> sl_pending_symbols eng then (True, eng)
      else
        (let held = (if sell_type = ''sl'' then is_sl_held (pm eng) smb (ex_now ex)
                     else (False, pm eng));
             eng1 = eng\<lparr>pm := snd held\<rparr>
         in if fst held then (True, eng1)
            else case ex_telegram ex of
                   None \<Rightarrow> (False, eng1)
                 | Some sent \<Rightarrow>
                     if sent
                     then (True, eng1\<lparr>sl_pending_symbols := insert smb (sl_pending_symbols eng1),
                                      approval_requests := approval_requests eng1 @ [(smb, sell_type)]\<rparr>)
                     else (False, eng1\<lparr>sl_pending_symbols := sl_pending_symbols eng1 - {smb}\<rparr>)))"

text \<open>The P&L percentage \<^verbatim>\<open>market_sell\<close> computes for the approval gate.\<close>

definition gate_pnl_pct :: "position \<Rightarrow> real \<Rightarrow> real" where
  "gate_pnl_pct pos expected_price =
     (let entry = (if entry_price pos \<le> 0 then expected_price else entry_price pos)
      in (expected_price - entry) / max entry 1 * 100)"

text \<open>
  \<^verbatim>\<open>market_sell\<close>. Every exception inside is caught by the function and turned into
  \<^verbatim>\<open>False\<close>; the writes made before it stay.
\<close>

definition market_sell ::
  "engine \<Rightarrow> exchange \<Rightarrow> config \<Rightarrow> string \<Rightarrow> position \<Rightarrow> real \<Rightarrow> bool \<Rightarrow> bool \<times> engine" where
  "market_sell eng ex cfg smb pos ratio skip_approval =
     (case get_price ex smb of
        None \<Rightarrow> (False, eng)
      | Some expected_price \<Rightarrow>
          if cfg_mode cfg = ''SEMI'' \<and> \<not> skip_approval \<and> gate_pnl_pct pos expected_price < 0
          then request_sell_approval eng ex smb pos expected_price ''signal''
          else
            (let actual_qty = get_actual_balance ex smb
             in if actual_qty \<le> 0
                then
                  (let eng1 = eng\<lparr>sl_pending_symbols := sl_pending_symbols eng - {smb}\<rparr>
                   in case close_position (pm eng1) smb expected_price of
                        Inl e \<Rightarrow> (False, eng1)
                      | Inr (ok, st') \<Rightarrow> (True, eng1\<lparr>pm := st'\<rparr>))
                else
                  (let sell_qty = format_qty smb
                         (if ratio \<ge> 1 then actual_qty * (9995 / 10000) else actual_qty * ratio)
                   in if sell_qty \<le> 0 then (False, eng)
                      else
                        (let eng1 = eng\<lparr>sell_calls := sell_calls eng @ [(smb, sell_qty)]\<rparr>
                         in case ex_limit_sell ex smb sell_qty of
                              Inl e \<Rightarrow> (False, eng1)
                            | Inr None \<Rightarrow> (False, eng1)
                            | Inr (Some ord) \<Rightarrow>
                                (case extract_fill_info ord expected_price sell_qty of
                                   Inl e \<Rightarrow> (False, eng1)
                                 | Inr (actual_price, actual_qty_filled) \<Rightarrow>
                                     (let entry = (if entry_price pos \<le> 0 then actual_price
                                                   else entry_price pos);
                                          profit = (actual_price - entry) * actual_qty_filled;
                                          eng2 = eng1\<lparr>loss_streak :=
                                                    register_trade_result (loss_streak eng1) profit,
                                                  sl_pending_symbols := sl_pending_symbols eng1 - {smb}\<rparr>
                                      in case close_position (pm eng2) smb actual_price of
                                           Inl e \<Rightarrow> (False, eng2)
                                         | Inr (ok, st') \<Rightarrow> (True, eng2\<lparr>pm := st'\<rparr>)))))))"

subsection \<open>The take-profit ladder\<close>








definition arm_trailing :: "trailing option \<Rightarrow> tp_level \<Rightarrow> real \<Rightarrow> trailing option" where
  "arm_trailing trl lvl price =
     (case trl of
        None \<Rightarrow> None
      | Some tr \<Rightarrow>
          (let tr1 = (if lv_id lvl = 1 then tr\<lparr>tr_enabled := True\<rparr> else tr);
               highest = safe_float (tr_highest_price tr1) price
           in Some (tr1\<lparr>tr_highest_price := Some (max highest price)\<rparr>)))"











subsection \<open>The trailing stop\<close>

text \<open>
  \<^verbatim>\<open>check_trailing_stop\<close>: the returned boolean, the position dict as the call leaves
  it, and the engine. An absent or empty trailing dict is \<open>None\<close>. Subtracting an
  \<open>offset\<close> that is \<^verbatim>\<open>None\<close> raises \<^verbatim>\<open>TypeError\<close>.
\<close>

definition check_trailing_stop ::
  "engine \<Rightarrow> string \<Rightarrow> position \<Rightarrow> real \<Rightarrow> py_error + (bool \<times> position \<times> engine)" where
  "check_trailing_stop eng smb pos price =
     (case trailing pos of
        None \<Rightarrow> Inr (False, pos, eng)
      | Some tr \<Rightarrow>
          if \<not> tr_enabled tr then Inr (False, pos, eng)
          else
            (let highest0 = safe_float (tr_highest_price tr) (entry_price pos);
                 highest = (if highest0 \<le> 0 then price else highest0)
             in if price > highest
                then (let pos' = pos\<lparr>trailing := Some (tr\<lparr>tr_highest_price := Some price\<rparr>)\<rparr>
                      in Inr (False, pos', eng\<lparr>pm := snd (update_position (pm eng) smb pos')\<rparr>))
                else (case tr_offset tr of
                        None \<Rightarrow> Inl TypeError
                      | Some off \<Rightarrow> Inr (price \<le> highest * (1 - off), pos, eng))))"

text \<open>A store with one position, used in the worked examples: 10 units entered at 100.\<close>

definition demo_position :: position where
  "demo_position =
     \<lparr>symbol = ''BTC/KRW'', qty = 10, entry_price = 100, opened_at = ''2025-01-01 00:00:00'',
      tp = None, sl = None, ai_tp = 2 / 100, ai_sl = 1 / 100, dca_stage = 0,
      dca_history = [], initial_qty = 10, tp_levels = [],
      trailing = Some \<lparr>tr_enabled = False, tr_trigger = None, tr_offset = None,
                        tr_highest_price = Some 100\<rparr>,
      meta = default_meta\<rparr>"

definition demo_store :: store where
  "demo_store = \<lparr>positions = [''BTC/KRW'' \<mapsto> demo_position], sl_hold_until = Map.empty\<rparr>"

text \<open>What one \<^verbatim>\<open>acquire\<close> call keeps: the configuration, the invariant at the last
  clock reading, and a grant history extended by the grant time exactly when the call
  returned \<^verbatim>\<open>True\<close>.\<close>

definition step_ok :: "rate_limiter \<Rightarrow> real list \<Rightarrow> (py_error + bool) \<times> rate_limiter \<times> real \<Rightarrow> bool" where
  "step_ok rl old r =
     (case r of (res, rl', t) \<Rightarrow>
        max_calls rl' = max_calls rl \<and> per_seconds rl' = per_seconds rl
        \<and> (\<exists>old'. window_inv rl' t old'
               \<and> old' @ calls rl' = old @ calls rl @ (if res = Inr True then [t] else [])))"

text \<open>The scenario of four immediate waiting calls, and a limiter of one call per
  minute that granted a call at time 0.\<close>

definition four_calls :: "acquire_event list" where
  "four_calls = [(True, 0, 0, 0), (True, 0, 0, 0), (True, 0, 0, 0), (True, 0, 0, 0)]"

definition boundary_limiter :: rate_limiter where
  "boundary_limiter =
     \<lparr>max_calls = 1, per_seconds = 60, calls = [0], total_calls = 1, blocked_calls = 0,
      rate_limit_hits = 0, wait_time_total = 0\<rparr>"

text \<open>A cache whose entry for one key expired at time 10, and a factory that returns
  \<^verbatim>\<open>None\<close> and counts its runs.\<close>

definition expired_cache :: "nat cache_manager" where
  "expired_cache =
     \<lparr>default_ttl = 60,
      cm_cache = [''price'' \<mapsto> \<lparr>ce_value = Some 1, ce_expires_at = 10, ce_created_at = 0,
                                  ce_hits = 0\<rparr>],
      st_hits = 0, st_misses = 0, st_sets = 1, st_deletes = 0, st_expirations = 0\<rparr>"

definition none_factory :: "nat \<Rightarrow> (py_error + nat option) \<times> nat" where
  "none_factory w = (Inr None, Suc w)"

text \<open>A breaker tripped at time 0 by five losing trades, with cooldown \<open>cd\<close>, and the
  recording of a list of trade results \<open>(pnl, pnl_pct)\<close>.\<close>

definition tripped_breaker :: "real \<Rightarrow> circuit_breaker" where
  "tripped_breaker cd =
     \<lparr>max_consecutive_losses = 5, max_daily_loss_pct = 3, max_api_failures = 10,
      cooldown_minutes = cd, consecutive_losses = 5, daily_pnl = - 5000, daily_pnl_pct = - 1,
      api_failures = 0, is_tripped = True, trip_reason = Some (ConsecutiveLosses 5),
      trip_time = Some 0, last_reset_date = 0\<rparr>"

fun record_trades :: "circuit_breaker \<Rightarrow> (real \<times> real) list \<Rightarrow> int \<Rightarrow> real \<Rightarrow> circuit_breaker" where
  "record_trades cb [] today now = cb"
| "record_trades cb (tr # trs) today now =
     record_trades (record_trade cb (fst tr) (snd tr) today now) trs today now"

text \<open>A configuration with a fixed capital of 1,000,000 KRW and a weight cap of 55%, and
  a market with 500,000 KRW free and one price for every symbol.\<close>

definition demo_config :: config where
  "demo_config =
     \<lparr>cfg_mode = ''AUTO'', use_realtime_capital = False, base_capital = 1000000,
      capital_safety_margin = 95 / 100, min_order_amount = 5000,
      position_weight_cap = 55 / 100, max_dca_count = 2, aggressive_mode = False\<rparr>"


text \<open>The example position with an armed trailing stop (highest price \<open>h\<close>, offset
  \<open>off\<close>), and an engine over the example store.\<close>

definition trailing_position :: "real \<Rightarrow> real \<Rightarrow> position" where
  "trailing_position h off =
     demo_position\<lparr>trailing := Some \<lparr>tr_enabled = True, tr_trigger = Some (3 / 100),
                                        tr_offset = Some off, tr_highest_price = Some h\<rparr>\<rparr>"

definition demo_engine :: engine where
  "demo_engine =
     \<lparr>pm = demo_store, sl_pending_symbols = {}, loss_streak = 0, sell_calls = [],
      approval_requests = []\<rparr>"

text \<open>An exchange with one feed price (or none) and one coin balance, where every sell
  order is answered without fill details and no chat bot is connected; and an engine with
  a pending approval for the example symbol.\<close>

definition demo_exchange :: "real option \<Rightarrow> real \<Rightarrow> exchange" where
  "demo_exchange price bal =
     \<lparr>ex_feed_price = (\<lambda>s. price), ex_ticker_last = (\<lambda>s. Inr None),
      ex_coin_total = (\<lambda>c. Inr bal),
      ex_limit_sell = (\<lambda>s q. Inr (Some \<lparr>o_average = PNone, o_price = PNone,
                                         o_filled = PNone, o_amount = PNone, i_average = PNone,
                                         i_price = PNone, i_units = PNone, i_filled = PNone\<rparr>)),
      ex_telegram = None, ex_now = 0\<rparr>"

definition pending_engine :: engine where
  "pending_engine = demo_engine\<lparr>sl_pending_symbols := {''BTC/KRW''}\<rparr>"











section \<open>Verified properties\<close>

subsection \<open>Position store: averaging-in\<close>

lemma add_dca_step:
  assumes "positions st smb = Some pos" "0 < qty pos" "0 < q"
  shows "add_dca st smb q p now =
           Inr (True, st\<lparr>positions := (positions st)(smb \<mapsto>
                  pos\<lparr>qty := qty pos + q,
                      entry_price := (qty pos * entry_price pos + q * p) / (qty pos + q),
                      dca_stage := dca_stage pos + 1,
                      dca_history := dca_history pos @
                         [\<lparr>df_qty = q, df_price = p, df_timestamp = now\<rparr>]\<rparr>)\<rparr>)"
  using assms by (simp add: add_dca_def Let_def)

lemma add_dca_all_average:
  assumes "positions st smb = Some pos" "0 < qty pos" "\<forall>f\<in>set fills. 0 < fst f"
  shows "\<exists>st' pos'. add_dca_all st smb fills now = Inr (True, st')
           \<and> positions st' smb = Some pos'
           \<and> qty pos' = qty pos + fills_qty fills
           \<and> entry_price pos' * qty pos' = qty pos * entry_price pos + fills_cost fills
           \<and> dca_stage pos' = dca_stage pos + int (length fills)
           \<and> map (\<lambda>d. (df_qty d, df_price d)) (dca_history pos')
               = map (\<lambda>d. (df_qty d, df_price d)) (dca_history pos) @ fills"
  using assms
proof (induction fills arbitrary: st pos)
  case Nil
  then show ?case by (simp add: fills_qty_def fills_cost_def)
next
  case (Cons f fs)
  let ?pos1 = "pos\<lparr>qty := qty pos + fst f,
                      entry_price := (qty pos * entry_price pos + fst f * snd f) / (qty pos + fst f),
                      dca_stage := dca_stage pos + 1,
                      dca_history := dca_history pos @
                         [\<lparr>df_qty = fst f, df_price = snd f, df_timestamp = now\<rparr>]\<rparr>"
  let ?st1 = "st\<lparr>positions := (positions st)(smb \<mapsto> ?pos1)\<rparr>"
  have f: "0 < fst f" using Cons.prems by simp
  have step: "add_dca st smb (fst f) (snd f) now = Inr (True, ?st1)"
    using add_dca_step [OF Cons.prems(1) Cons.prems(2) f] .
  have p1: "positions ?st1 smb = Some ?pos1" by simp
  have q1: "0 < qty ?pos1" using Cons.prems(2) f by simp
  have r1: "\<forall>f\<in>set fs. 0 < fst f" using Cons.prems(3) by simp
  from Cons.IH [OF p1 q1 r1] obtain st' pos' where
    h: "add_dca_all ?st1 smb fs now = Inr (True, st')" "positions st' smb = Some pos'"
       "qty pos' = qty ?pos1 + fills_qty fs"
       "entry_price pos' * qty pos' = qty ?pos1 * entry_price ?pos1 + fills_cost fs"
       "dca_stage pos' = dca_stage ?pos1 + int (length fs)"
       "map (\<lambda>d. (df_qty d, df_price d)) (dca_history pos')
               = map (\<lambda>d. (df_qty d, df_price d)) (dca_history ?pos1) @ fs"
    by blast
  have nz: "qty pos + fst f \<noteq> 0" using Cons.prems(2) f by simp
  have "add_dca_all st smb (f # fs) now = Inr (True, st')"
    using step h(1) by simp
  moreover have "qty pos' = qty pos + fills_qty (f # fs)"
    using h(3) by (simp add: fills_qty_def)
  moreover have "entry_price pos' * qty pos' = qty pos * entry_price pos + fills_cost (f # fs)"
    using h(4) nz by (simp add: fills_cost_def)
  moreover have "dca_stage pos' = dca_stage pos + int (length (f # fs))"
    using h(5) by simp
  moreover have "map (\<lambda>d. (df_qty d, df_price d)) (dca_history pos')
               = map (\<lambda>d. (df_qty d, df_price d)) (dca_history pos) @ f # fs"
    using h(6) by simp
  ultimately show ?case using h(2) by blast
qed

lemma fills_qty_pos: "0 < q0 \<Longrightarrow> \<forall>f\<in>set fills. 0 < fst f \<Longrightarrow> 0 < q0 + fills_qty fills"
  by (induction fills arbitrary: q0) (auto simp: fills_qty_def add_pos_pos)

lemma demo_store_open:
  "open_position empty_store ''BTC/KRW'' 10 100 (2 / 100) (1 / 100) None None None None
     default_meta ''2025-01-01 00:00:00'' = (True, demo_store)"
  by (simp add: open_position_def empty_store_def demo_store_def demo_position_def)

text \<open>
  Claim C1. For a position with quantity \<open>q0 > 0\<close> and entry price \<open>p0\<close> and a DCA fill
  of quantity \<open>q > 0\<close> at price \<open>p\<close>, \<^verbatim>\<open>add_dca\<close> succeeds and stores the entry price
  \<open>(q0 * p0 + q * p) / (q0 + q)\<close>, the quantity \<open>q0 + q\<close> and a \<open>dca_stage\<close> one higher;
  hence after an initial fill and any list of DCA fills of positive quantity the entry
  price is the fill-volume-weighted average of all the fills; and for \<open>q0 = 10\<close>,
  \<open>p0 = 100\<close>, \<open>q = 5\<close>, \<open>p = 70\<close> the entry price is 90 and \<open>dca_stage\<close> is 1.
\<close>

theorem add_dca_weighted_average:
  assumes "positions st smb = Some pos" and "0 < qty pos" and "0 < q"
    and "0 < q0" and "\<forall>f\<in>set fills. 0 < fst f"
  shows "add_dca st smb q p now =
           Inr (True, st\<lparr>positions := (positions st)(smb \<mapsto>
                  pos\<lparr>qty := qty pos + q,
                      entry_price := (qty pos * entry_price pos + q * p) / (qty pos + q),
                      dca_stage := dca_stage pos + 1,
                      dca_history := dca_history pos @
                         [\<lparr>df_qty = q, df_price = p, df_timestamp = now\<rparr>]\<rparr>)\<rparr>)
       \<and> (\<exists>st' pos'.
             add_dca_all (snd (open_position st0 smb q0 p0 a_tp a_sl s_tp s_sl trl lvls m now0))
               smb fills now = Inr (True, st')
           \<and> positions st' smb = Some pos'
           \<and> entry_price pos' = vwap ((q0, p0) # fills)
           \<and> qty pos' = fills_qty ((q0, p0) # fills)
           \<and> dca_stage pos' = int (length fills))
       \<and> (\<exists>st' pos'.
             add_dca demo_store ''BTC/KRW'' 5 70 now = Inr (True, st')
           \<and> positions st' ''BTC/KRW'' = Some pos'
           \<and> entry_price pos' = 90 \<and> qty pos' = 15 \<and> dca_stage pos' = 1)"
proof (intro conjI)
  show "add_dca st smb q p now =
           Inr (True, st\<lparr>positions := (positions st)(smb \<mapsto>
                  pos\<lparr>qty := qty pos + q,
                      entry_price := (qty pos * entry_price pos + q * p) / (qty pos + q),
                      dca_stage := dca_stage pos + 1,
                      dca_history := dca_history pos @
                         [\<lparr>df_qty = q, df_price = p, df_timestamp = now\<rparr>]\<rparr>)\<rparr>)"
    using assms(1-3) by (rule add_dca_step)
next
  let ?st1 = "snd (open_position st0 smb q0 p0 a_tp a_sl s_tp s_sl trl lvls m now0)"
  obtain pos1 where p1: "positions ?st1 smb = Some pos1" "qty pos1 = q0"
    "entry_price pos1 = p0" "dca_stage pos1 = 0"
    by (simp add: open_position_def Let_def)
  have q1: "0 < qty pos1" using p1(2) assms(4) by simp
  from add_dca_all_average [OF p1(1) q1 assms(5), of now] obtain st' pos' where
    h: "add_dca_all ?st1 smb fills now = Inr (True, st')" "positions st' smb = Some pos'"
       "qty pos' = qty pos1 + fills_qty fills"
       "entry_price pos' * qty pos' = qty pos1 * entry_price pos1 + fills_cost fills"
       "dca_stage pos' = dca_stage pos1 + int (length fills)"
    by blast
  have tot: "0 < q0 + fills_qty fills" using assms(4,5) by (rule fills_qty_pos)
  have qq: "qty pos' = fills_qty ((q0, p0) # fills)"
    using h(3) p1(2) by (simp add: fills_qty_def)
  have "entry_price pos' * qty pos' = fills_cost ((q0, p0) # fills)"
    using h(4) p1(2,3) by (simp add: fills_cost_def)
  moreover have "qty pos' \<noteq> 0" using h(3) p1(2) tot by simp
  ultimately have "entry_price pos' = vwap ((q0, p0) # fills)"
    unfolding vwap_def qq [symmetric] by (simp add: field_simps)
  moreover have "dca_stage pos' = int (length fills)" using h(5) p1(4) by simp
  ultimately show "\<exists>st' pos'.
             add_dca_all ?st1 smb fills now = Inr (True, st')
           \<and> positions st' smb = Some pos'
           \<and> entry_price pos' = vwap ((q0, p0) # fills)
           \<and> qty pos' = fills_qty ((q0, p0) # fills)
           \<and> dca_stage pos' = int (length fills)"
    using h(1,2) qq by blast
next
  show "\<exists>st' pos'.
             add_dca demo_store ''BTC/KRW'' 5 70 now = Inr (True, st')
           \<and> positions st' ''BTC/KRW'' = Some pos'
           \<and> entry_price pos' = 90 \<and> qty pos' = 15 \<and> dca_stage pos' = 1"
    by (simp add: add_dca_def demo_store_def demo_position_def Let_def)
qed

theorem add_dca_weighted_average_witness:
  "positions demo_store ''BTC/KRW'' = Some demo_position \<and> 0 < qty demo_position
   \<and> (0::real) < 5 \<and> (0::real) < 10 \<and> list_all (\<lambda>f. 0 < fst f) [(5::real, 70::real), (5, 40)]
   \<and> (case add_dca demo_store ''BTC/KRW'' 5 70 [] of
        Inl e \<Rightarrow> False
      | Inr (ok, st') \<Rightarrow> ok \<and> map_option entry_price (positions st' ''BTC/KRW'') = Some 90
                          \<and> map_option dca_stage (positions st' ''BTC/KRW'') = Some 1)
   \<and> vwap [(10, 100), (5, 70), (5, 40)] = 155 / 2"
proof -
  have a: "positions demo_store ''BTC/KRW'' = Some demo_position"
    by (simp add: demo_store_def)
  have b: "0 < qty demo_position" by (simp add: demo_position_def)
  have c: "\<forall>f\<in>set [(5::real, 70::real), (5, 40)]. 0 < fst f" by simp
  have d: "(0::real) < 5" and e: "(0::real) < 10" by simp_all
  note t = add_dca_weighted_average [OF a b d e c, where p = 70 and now = "[]"]
  have v: "vwap [(10, 100), (5, 70), (5, 40)] = 155 / 2"
    by (simp add: vwap_def fills_cost_def fills_qty_def)
  show ?thesis using a b c t v
    by (simp add: demo_position_def)
qed

text \<open>
  Claim C7, as the code has it. \<^verbatim>\<open>open_position\<close> does not test whether the symbol
  has a position: the claim that it fails and leaves the record unchanged does not hold.
\<close>

theorem open_position_existing_counterexample:
  "has_position demo_store ''BTC/KRW''
   \<and> fst (open_position demo_store ''BTC/KRW'' 3 50 (2 / 100) (1 / 100) None None None None
            default_meta ''2025-01-02 00:00:00'') = True
   \<and> positions (snd (open_position demo_store ''BTC/KRW'' 3 50 (2 / 100) (1 / 100) None None
            None None default_meta ''2025-01-02 00:00:00'')) ''BTC/KRW''
       \<noteq> positions demo_store ''BTC/KRW''"
  by (simp add: has_position_def open_position_def demo_store_def demo_position_def)

text \<open>
  Claim C7, amended. When a position already exists for the symbol, \<^verbatim>\<open>open_position\<close>
  reports success and replaces the record by a fresh one built from its arguments
  (quantity, entry price, initial quantity, \<open>dca_stage = 0\<close>, empty history, trailing
  stop disabled when none is passed); the records of the other symbols are unchanged.
  Checking \<^verbatim>\<open>has_position\<close> first is left to the caller.
\<close>

theorem open_position_replaces_existing:
  assumes "has_position st smb"
  shows "fst (open_position st smb q price a_tp a_sl s_tp s_sl trl lvls m now) = True
       \<and> (\<exists>p. get_position (snd (open_position st smb q price a_tp a_sl s_tp s_sl trl lvls m now)) smb
                 = Some p
              \<and> symbol p = smb \<and> qty p = q \<and> entry_price p = price \<and> initial_qty p = q
              \<and> dca_stage p = 0 \<and> dca_history p = [] \<and> opened_at p = now
              \<and> (trl = None \<longrightarrow> map_option tr_enabled (trailing p) = Some False))
       \<and> (\<forall>s. s \<noteq> smb \<longrightarrow>
             get_position (snd (open_position st smb q price a_tp a_sl s_tp s_sl trl lvls m now)) s
               = get_position st s)"
  by (simp add: open_position_def get_position_def Let_def)

theorem open_position_replaces_existing_witness:
  "has_position demo_store ''BTC/KRW''
   \<and> fst (open_position demo_store ''BTC/KRW'' 3 50 (2 / 100) (1 / 100) None None None None
            default_meta ''2025-01-02 00:00:00'') = True
   \<and> map_option qty (get_position (snd (open_position demo_store ''BTC/KRW'' 3 50 (2 / 100)
            (1 / 100) None None None None default_meta ''2025-01-02 00:00:00'')) ''BTC/KRW'')
       = Some 3"
proof -
  have h: "has_position demo_store ''BTC/KRW''"
    by (simp add: has_position_def demo_store_def)
  from open_position_replaces_existing [OF h, where q = 3 and price = 50 and a_tp = "2 / 100"
      and a_sl = "1 / 100" and s_tp = None and s_sl = None and trl = None and lvls = None
      and m = default_meta and now = "''2025-01-02 00:00:00''"]
  show ?thesis using h by auto
qed

subsection \<open>Rate limiter: the sliding window\<close>

lemma giw_append: "grants_in_window w t (xs @ ys) = grants_in_window w t xs + grants_in_window w t ys"
  by (simp add: grants_in_window_def)

lemma giw_le_length: "grants_in_window w t xs \<le> length xs"
  by (simp add: grants_in_window_def)

lemma giw_before: "list_all (\<lambda>c. c < b) xs \<Longrightarrow> b \<le> t - w \<Longrightarrow> grants_in_window w t xs = 0"
  by (induction xs) (auto simp: grants_in_window_def)

lemma window_inv_purge:
  assumes inv: "window_inv rl clk old" and le: "clk \<le> now"
  shows "window_inv (cleanup_old_calls rl now) now
           (old @ takeWhile (\<lambda>c. c < now - per_seconds rl) (calls rl))"
proof -
  let ?P = "\<lambda>c. c < now - per_seconds rl"
  have a: "list_all (\<lambda>c. c < now - per_seconds rl) old"
    using inv le by (auto simp: window_inv_def list_all_iff)
  have b: "list_all ?P (takeWhile ?P (calls rl))"
    by (auto simp: list_all_iff dest: set_takeWhileD)
  have c: "list_all (\<lambda>c. c \<le> now) (dropWhile ?P (calls rl))"
    using inv le by (auto simp: window_inv_def list_all_iff dest!: set_dropWhileD)
  have d: "sorted (dropWhile ?P (calls rl))"
    using inv by (simp add: window_inv_def sorted_dropWhile)
  have e: "length (dropWhile ?P (calls rl)) \<le> max_calls rl"
    using inv length_dropWhile_le [of ?P "calls rl"] by (simp add: window_inv_def)
  have f: "(old @ takeWhile ?P (calls rl)) @ dropWhile ?P (calls rl) = old @ calls rl"
    by simp
  have g: "\<forall>t. grants_in_window (per_seconds rl) t
              ((old @ takeWhile ?P (calls rl)) @ dropWhile ?P (calls rl)) \<le> max_calls rl"
    unfolding f using inv by (simp add: window_inv_def)
  show ?thesis
    unfolding window_inv_def cleanup_old_calls_def
    using a b c d e g by simp
qed

lemma window_inv_grant:
  assumes inv: "window_inv rl now old" and room: "length (calls rl) < max_calls rl"
  shows "window_inv (rl\<lparr>calls := calls rl @ [now], total_calls := n\<rparr>) now old"
proof -
  have s: "sorted (calls rl @ [now])"
    using inv by (auto simp: window_inv_def sorted_append list_all_iff)
  have bound: "grants_in_window (per_seconds rl) t (old @ calls rl @ [now]) \<le> max_calls rl" for t
  proof (cases "t - per_seconds rl \<le> now \<and> now \<le> t")
    case True
    have "grants_in_window (per_seconds rl) t old = 0"
      using inv True by (intro giw_before [where b = "now - per_seconds rl"])
        (auto simp: window_inv_def)
    moreover have "grants_in_window (per_seconds rl) t (calls rl @ [now]) \<le> length (calls rl @ [now])"
      by (rule giw_le_length)
    ultimately show ?thesis using room by (simp add: giw_append)
  next
    case False
    then have "grants_in_window (per_seconds rl) t (old @ calls rl @ [now])
                 = grants_in_window (per_seconds rl) t (old @ calls rl)"
      by (auto simp: grants_in_window_def)
    then show ?thesis using inv by (simp add: window_inv_def)
  qed
  show ?thesis
    unfolding window_inv_def using inv s room bound
    by (simp add: window_inv_def)
qed

lemma window_inv_stats:
  "window_inv (rl\<lparr>rate_limit_hits := a\<rparr>) clk old = window_inv rl clk old"
  "window_inv (rl\<lparr>blocked_calls := b\<rparr>) clk old = window_inv rl clk old"
  "window_inv (rl\<lparr>wait_time_total := c\<rparr>) clk old = window_inv rl clk old"
  by (simp_all add: window_inv_def)

lemma cleanup_fields:
  "max_calls (cleanup_old_calls rl now) = max_calls rl"
  "per_seconds (cleanup_old_calls rl now) = per_seconds rl"
  "calls (cleanup_old_calls rl now) = dropWhile (\<lambda>c. c < now - per_seconds rl) (calls rl)"
  by (simp_all add: cleanup_old_calls_def)

lemma acquire_nowait_inv:
  assumes inv: "window_inv rl clk old" and le: "clk \<le> now"
  shows "step_ok rl old (acquire rl False now l1 l2) \<and> snd (snd (acquire rl False now l1 l2)) = now"
proof -
  let ?P = "\<lambda>c. c < now - per_seconds rl"
  let ?rl1 = "cleanup_old_calls rl now"
  let ?old1 = "old @ takeWhile ?P (calls rl)"
  have i1: "window_inv ?rl1 now ?old1" using inv le by (rule window_inv_purge)
  have h: "?old1 @ calls ?rl1 = old @ calls rl" by (simp add: cleanup_fields)
  show ?thesis
  proof (cases "length (calls ?rl1) < max_calls ?rl1")
    case True
    have "window_inv (?rl1\<lparr>calls := calls ?rl1 @ [now], total_calls := total_calls ?rl1 + 1\<rparr>) now ?old1"
      using i1 True by (rule window_inv_grant)
    then show ?thesis using True h
      by (auto simp: step_ok_def Let_def cleanup_fields intro!: exI [of _ ?old1])
  next
    case False
    have "window_inv (?rl1\<lparr>rate_limit_hits := rate_limit_hits ?rl1 + 1,
                   blocked_calls := blocked_calls ?rl1 + 1\<rparr>) now ?old1"
      using i1 by (simp add: window_inv_def)
    then show ?thesis using False h
      by (auto simp: step_ok_def Let_def cleanup_fields intro!: exI [of _ ?old1])
  qed
qed

lemma step_ok_trans:
  assumes "step_ok rl2 old2 r" and "max_calls rl2 = max_calls rl" and "per_seconds rl2 = per_seconds rl"
    and "old2 @ calls rl2 = old @ calls rl"
  shows "step_ok rl old r"
  using assms by (auto simp: step_ok_def split: prod.splits)

lemma acquire_wait_inv:
  assumes inv: "window_inv rl clk old" and le: "clk \<le> now" and l1: "0 \<le> lag1" and l2: "0 \<le> lag2"
  shows "step_ok rl old (acquire rl True now lag1 lag2)
         \<and> now \<le> snd (snd (acquire rl True now lag1 lag2))"
proof -
  let ?P = "\<lambda>c. c < now - per_seconds rl"
  let ?rl1 = "cleanup_old_calls rl now"
  let ?old1 = "old @ takeWhile ?P (calls rl)"
  have i1: "window_inv ?rl1 now ?old1" using inv le by (rule window_inv_purge)
  have h: "?old1 @ calls ?rl1 = old @ calls rl" by (simp add: cleanup_fields)
  show ?thesis
  proof (cases "length (calls ?rl1) < max_calls ?rl1")
    case True
    have "window_inv (?rl1\<lparr>calls := calls ?rl1 @ [now], total_calls := total_calls ?rl1 + 1\<rparr>) now ?old1"
      using i1 True by (rule window_inv_grant)
    then show ?thesis using True h
      by (auto simp: step_ok_def Let_def cleanup_fields intro!: exI [of _ ?old1])
  next
    case False
    let ?rl2 = "?rl1\<lparr>rate_limit_hits := rate_limit_hits ?rl1 + 1\<rparr>"
    have i2: "window_inv ?rl2 now ?old1" using i1 by (simp add: window_inv_stats)
    show ?thesis
    proof (cases "calls ?rl2")
      case Nil
      have eq: "acquire rl True now lag1 lag2 = (Inl IndexError, ?rl2, now)"
        using False Nil by (simp add: Let_def)
      have "step_ok rl old (Inl IndexError, ?rl2, now)"
        unfolding step_ok_def using i2 h
        by (auto simp: cleanup_fields intro!: exI [of _ ?old1])
      then show ?thesis using eq by simp
    next
      case (Cons c0 cs)
      let ?now2 = "now + lag1"
      let ?wt = "c0 + per_seconds ?rl2 - ?now2"
      show ?thesis
      proof (cases "?wt > 0")
        case True
        let ?rl3 = "?rl2\<lparr>wait_time_total := wait_time_total ?rl2 + ?wt\<rparr>"
        let ?now3 = "?now2 + (?wt + 1 / 10) + lag2"
        have i3: "window_inv ?rl3 now ?old1" using i2 by (simp add: window_inv_stats)
        have le3: "now \<le> ?now3" using True l1 l2 by simp
        have eq: "acquire rl True now lag1 lag2 = acquire ?rl3 False ?now3 0 0"
          using False Cons True by (simp add: Let_def)
        have s: "step_ok ?rl3 ?old1 (acquire ?rl3 False ?now3 0 0)"
          and t: "snd (snd (acquire ?rl3 False ?now3 0 0)) = ?now3"
          using acquire_nowait_inv [OF i3 le3] by blast+
        have "step_ok rl old (acquire ?rl3 False ?now3 0 0)"
          using s by (rule step_ok_trans) (simp_all add: cleanup_fields)
        then show ?thesis using eq t le3 by simp
      next
        case False2: False
        let ?now3 = "?now2 + lag2"
        have le3: "now \<le> ?now3" using l1 l2 by simp
        have eq: "acquire rl True now lag1 lag2 = acquire ?rl2 False ?now3 0 0"
          using False Cons False2 by (simp add: Let_def)
        have s: "step_ok ?rl2 ?old1 (acquire ?rl2 False ?now3 0 0)"
          and t: "snd (snd (acquire ?rl2 False ?now3 0 0)) = ?now3"
          using acquire_nowait_inv [OF i2 le3] by blast+
        have "step_ok rl old (acquire ?rl2 False ?now3 0 0)"
          using s by (rule step_ok_trans) (simp_all add: cleanup_fields)
        then show ?thesis using eq t le3 by simp
      qed
    qed
  qed
qed

lemma acquire_inv:
  assumes "window_inv rl clk old" and "clk \<le> now" and "0 \<le> lag1" and "0 \<le> lag2"
  shows "step_ok rl old (acquire rl w now lag1 lag2) \<and> now \<le> snd (snd (acquire rl w now lag1 lag2))"
proof (cases w)
  case True
  then show ?thesis using acquire_wait_inv [OF assms] by simp
next
  case False
  then show ?thesis using acquire_nowait_inv [OF assms(1,2), of lag1 lag2] by simp
qed

lemma acquire_run_inv:
  assumes "window_inv rl clk old" and "list_all event_ok es"
    and "acquire_run rl clk es = (gs, rl', t')"
  shows "max_calls rl' = max_calls rl \<and> per_seconds rl' = per_seconds rl
         \<and> (\<exists>old'. window_inv rl' t' old' \<and> old' @ calls rl' = old @ calls rl @ gs)"
  using assms
proof (induction es arbitrary: rl clk old gs rl' t')
  case Nil
  then show ?case by auto
next
  case (Cons e es)
  obtain w gap lag1 lag2 where e: "e = (w, gap, lag1, lag2)" by (cases e) auto
  obtain res rl1 t1 where a: "acquire rl w (clk + gap) lag1 lag2 = (res, rl1, t1)"
    by (cases "acquire rl w (clk + gap) lag1 lag2") auto
  obtain gs1 rl2 t2 where r: "acquire_run rl1 t1 es = (gs1, rl2, t2)"
    by (cases "acquire_run rl1 t1 es") auto
  have oks: "list_all event_ok es" and ok0: "event_ok e"
    using Cons.prems(2) by simp_all
  have ok: "0 \<le> gap" "0 \<le> lag1" "0 \<le> lag2"
    using ok0 e by (simp_all add: event_ok_def)
  have "clk \<le> clk + gap" using ok by simp
  from acquire_inv [OF Cons.prems(1) this ok(2,3), of w] a
  obtain old1 where s: "max_calls rl1 = max_calls rl" "per_seconds rl1 = per_seconds rl"
      "window_inv rl1 t1 old1"
      "old1 @ calls rl1 = old @ calls rl @ (if res = Inr True then [t1] else [])"
    by (auto simp: step_ok_def)
  from Cons.IH [OF s(3) oks r] obtain old2 where
    ih: "max_calls rl2 = max_calls rl1" "per_seconds rl2 = per_seconds rl1"
        "window_inv rl2 t2 old2" "old2 @ calls rl2 = old1 @ calls rl1 @ gs1"
    by blast
  have res: "gs = (if res = Inr True then [t1] else []) @ gs1" "rl' = rl2" "t' = t2"
    using Cons.prems(3) e a r by auto
  have "old2 @ calls rl2 = old @ calls rl @ gs"
    using ih(4) s(4) res(1) by (metis append.assoc)
  then show ?case using ih s res by auto
qed

lemma new_limiter_inv: "window_inv (new_rate_limiter m w) clk []"
  by (simp add: window_inv_def new_rate_limiter_def grants_in_window_def)

lemma four_calls_run:
  "acquire_run (new_rate_limiter 3 60) 0 four_calls =
     ([0, 0, 0, 601 / 10],
      \<lparr>max_calls = 3, per_seconds = 60, calls = [601 / 10], total_calls = 4, blocked_calls = 0,
       rate_limit_hits = 1, wait_time_total = 60\<rparr>, 601 / 10)"
  by (simp add: four_calls_def new_rate_limiter_def cleanup_old_calls_def Let_def)

text \<open>
  Claim C2. For a limiter created with \<open>max_calls = m\<close> and \<open>per_seconds = w\<close> and every
  sequential run of \<^verbatim>\<open>acquire\<close> calls (waiting or not) on a clock that does not go
  backwards, no trailing interval \<open>[t - w, t]\<close> holds more than \<open>m\<close> grant times; and
  after the run the deque holds at most \<open>m\<close> timestamps, which are the latest grants, all
  earlier grants lying before the window of the last clock reading.
\<close>

theorem acquire_window_bound:
  assumes "list_all event_ok es"
    and "acquire_run (new_rate_limiter m w) clk es = (gs, rl', t')"
  shows "(\<forall>t. grants_in_window w t gs \<le> m) \<and> length (calls rl') \<le> m
         \<and> calls rl' = drop (length gs - length (calls rl')) gs
         \<and> list_all (\<lambda>g. g < t' - w) (take (length gs - length (calls rl')) gs)"
proof -
  from acquire_run_inv [OF new_limiter_inv assms]
  obtain old where h: "max_calls rl' = m" "per_seconds rl' = w"
      "window_inv rl' t' old" "old @ calls rl' = gs"
    by (auto simp: new_rate_limiter_def)
  have "\<forall>t. grants_in_window w t gs \<le> m"
    using h by (auto simp: window_inv_def)
  moreover have "length (calls rl') \<le> m" using h by (simp add: window_inv_def)
  moreover have "list_all (\<lambda>g. g < t' - w) old" using h by (simp add: window_inv_def)
  moreover have "drop (length gs - length (calls rl')) gs = calls rl'"
    and "take (length gs - length (calls rl')) gs = old"
    using h(4) by auto
  ultimately show ?thesis by simp
qed

theorem acquire_window_bound_witness:
  "list_all event_ok four_calls
   \<and> acquire_run (new_rate_limiter 3 60) 0 four_calls =
       ([0, 0, 0, 601 / 10],
        \<lparr>max_calls = 3, per_seconds = 60, calls = [601 / 10], total_calls = 4, blocked_calls = 0,
         rate_limit_hits = 1, wait_time_total = 60\<rparr>, 601 / 10)
   \<and> grants_in_window 60 60 [0, 0, 0, 601 / 10] \<le> 3
   \<and> grants_in_window 60 (601 / 10) [0, 0, 0, 601 / 10] \<le> 3"
proof -
  have a: "list_all event_ok four_calls"
    by (simp add: four_calls_def event_ok_def)
  from acquire_window_bound [OF a four_calls_run]
  show ?thesis using a four_calls_run by simp
qed

text \<open>
  In every other case of a full window the waiting call is granted: when it has to sleep,
  or when the retry reads the clock strictly after the oldest timestamp left the window.
\<close>

lemma acquire_wait_grants:
  assumes len: "length (calls rl) \<le> max_calls rl"
    and cl: "calls (cleanup_old_calls rl now) = c0 # cs"
    and full: "\<not> length (calls (cleanup_old_calls rl now)) < max_calls rl"
    and l2: "0 \<le> lag2"
    and late: "0 < c0 + per_seconds rl - (now + lag1) \<or> c0 + per_seconds rl < now + lag1 + lag2"
  shows "fst (acquire rl True now lag1 lag2) = Inr True
       \<and> c0 + per_seconds rl < snd (snd (acquire rl True now lag1 lag2))"
proof -
  let ?rl1 = "cleanup_old_calls rl now"
  let ?rl2 = "?rl1\<lparr>rate_limit_hits := rate_limit_hits ?rl1 + 1\<rparr>"
  have l1: "length (c0 # cs) \<le> max_calls rl"
    using len cl [symmetric] length_dropWhile_le [of "\<lambda>c. c < now - per_seconds rl" "calls rl"]
    by (simp add: cleanup_fields)
  have room: "length (dropWhile (\<lambda>c. c < t - per_seconds rl) cs) < max_calls rl" for t
    using l1 length_dropWhile_le [of "\<lambda>c. c < t - per_seconds rl" cs] by simp
  have nowait: "acquire (r\<lparr>calls := c0 # cs\<rparr>) False t 0 0
                  = (Inr True, r\<lparr>calls := dropWhile (\<lambda>c. c < t - per_seconds rl) cs @ [t],
                                    total_calls := total_calls r + 1\<rparr>, t)"
    if "c0 + per_seconds rl < t" "per_seconds r = per_seconds rl" "max_calls r = max_calls rl"
    for r t
    using that room [of t] by (simp add: cleanup_old_calls_def Let_def)
  have shape: "?rl2 = ?rl2\<lparr>calls := c0 # cs\<rparr>"
    using cl by simp
  show ?thesis
  proof (cases "0 < c0 + per_seconds rl - (now + lag1)")
    case True
    let ?wt = "c0 + per_seconds rl - (now + lag1)"
    let ?rl3 = "?rl2\<lparr>wait_time_total := wait_time_total ?rl2 + ?wt\<rparr>"
    let ?t = "now + lag1 + (?wt + 1 / 10) + lag2"
    have eq: "acquire rl True now lag1 lag2 = acquire ?rl3 False ?t 0 0"
      using full cl True by (simp add: Let_def cleanup_fields)
    have t: "c0 + per_seconds rl < ?t" using l2 by simp
    have "?rl3 = ?rl3\<lparr>calls := c0 # cs\<rparr>" using cl by simp
    then have "acquire ?rl3 False ?t 0 0 = acquire (?rl3\<lparr>calls := c0 # cs\<rparr>) False ?t 0 0"
      by simp
    also have "\<dots> = (Inr True, ?rl3\<lparr>calls := dropWhile (\<lambda>c. c < ?t - per_seconds rl) cs @ [?t],
                                    total_calls := total_calls ?rl3 + 1\<rparr>, ?t)"
      by (rule nowait [OF t]) (simp_all add: cleanup_fields)
    finally show ?thesis using eq t by simp
  next
    case False
    let ?t = "now + lag1 + lag2"
    have t: "c0 + per_seconds rl < ?t" using late False by simp
    have eq: "acquire rl True now lag1 lag2 = acquire ?rl2 False ?t 0 0"
      using full cl False by (simp add: Let_def cleanup_fields)
    have "acquire ?rl2 False ?t 0 0 = acquire (?rl2\<lparr>calls := c0 # cs\<rparr>) False ?t 0 0"
      using shape by simp
    also have "\<dots> = (Inr True, ?rl2\<lparr>calls := dropWhile (\<lambda>c. c < ?t - per_seconds rl) cs @ [?t],
                                    total_calls := total_calls ?rl2 + 1\<rparr>, ?t)"
      by (rule nowait [OF t]) (simp_all add: cleanup_fields)
    finally show ?thesis using eq t by simp
  qed
qed

text \<open>
  Claim C8, where the code departs from it. A limiter of one call per 60 seconds grants a
  call at time 0; a waiting call whose clock readings are all 60 finds the old timestamp
  still inside the window (the purge is strict), computes a waiting time of 0, does not
  sleep, retries without waiting and returns \<^verbatim>\<open>False\<close>. With \<open>max_calls = 0\<close> a
  waiting call reads the head of an empty deque and raises.
\<close>

theorem acquire_wait_boundary_refused:
  "acquire_run (new_rate_limiter 1 60) 0 [(False, 0, 0, 0)] = ([0], boundary_limiter, 0)
   \<and> acquire boundary_limiter True 60 0 0 =
       (Inr False, boundary_limiter\<lparr>rate_limit_hits := 2, blocked_calls := 1\<rparr>, 60)
   \<and> acquire (new_rate_limiter 0 60) True 0 0 0 =
       (Inl IndexError, (new_rate_limiter 0 60)\<lparr>rate_limit_hits := 1\<rparr>, 0)"
  by (simp add: new_rate_limiter_def boundary_limiter_def cleanup_old_calls_def Let_def)

subsection \<open>TTL cache: a factory that returns nothing\<close>

text \<open>
  Claim C10, as the code has it. The lookup inside \<^verbatim>\<open>get_or_set\<close> evicts an expired
  entry, so the contents of the cache can change although the factory returns
  \<^verbatim>\<open>None\<close> and nothing is stored.
\<close>

theorem get_or_set_none_counterexample:
  "fst (none_factory 0) = Inr None
   \<and> fst (get_or_set expired_cache ''price'' none_factory None 20 20 0) = Inr None
   \<and> cm_cache (fst (snd (get_or_set expired_cache ''price'' none_factory None 20 20 0))) ''price''
        = None
   \<and> cm_cache expired_cache ''price'' \<noteq> None
   \<and> cm_cache (fst (snd (get_or_set expired_cache ''price'' none_factory None 20 20 0)))
        \<noteq> cm_cache expired_cache"
proof -
  have a: "cm_cache (fst (snd (get_or_set expired_cache ''price'' none_factory None 20 20 0))) ''price''
        = None"
    by (simp add: get_or_set_def cache_get_def expired_cache_def none_factory_def)
  have b: "cm_cache expired_cache ''price'' \<noteq> None"
    by (simp add: expired_cache_def)
  have c: "fst (get_or_set expired_cache ''price'' none_factory None 20 20 0) = Inr None"
    by (simp add: get_or_set_def cache_get_def expired_cache_def none_factory_def)
  have d: "cm_cache (fst (snd (get_or_set expired_cache ''price'' none_factory None 20 20 0)))
        \<noteq> cm_cache expired_cache"
    using a b by metis
  show ?thesis using a b c d by (simp add: none_factory_def)
qed

lemma cache_get_none_after:
  assumes "cache_get cm key now1 = (None, cm1)"
  shows "fst (cache_get cm1 key now3) = None"
  using assms
  by (auto simp: cache_get_def split: option.splits if_splits)

lemma cache_get_others:
  assumes "cache_get cm key now1 = (v, cm1)" and "k \<noteq> key"
  shows "cm_cache cm1 k = cm_cache cm k"
  using assms by (auto simp: cache_get_def split: option.splits if_splits)

lemma cache_get_key:
  assumes "cache_get cm key now1 = (None, cm1)"
  shows "cm_cache cm1 key = None
         \<or> (\<exists>e. cm_cache cm key = Some e \<and> ce_value e = None \<and> \<not> now1 > ce_expires_at e
                \<and> cm_cache cm1 key = Some (e\<lparr>ce_hits := ce_hits e + 1\<rparr>))"
  using assms by (auto simp: cache_get_def split: option.splits if_splits)

lemma cache_get_sets:
  assumes "cache_get cm key now1 = (v, cm1)"
  shows "st_sets cm1 = st_sets cm"
  using assms by (auto simp: cache_get_def split: option.splits if_splits)

text \<open>
  Claim C10, amended. If the lookup of \<^verbatim>\<open>get_or_set\<close> misses (no entry, an expired
  entry, or an entry holding \<^verbatim>\<open>None\<close>) and the factory returns \<^verbatim>\<open>None\<close>, then
  \<^verbatim>\<open>None\<close> is returned and no entry is stored: the cache is the one the lookup left,
  the entries of all other keys are unchanged, and the key has no entry or keeps its
  unexpired entry holding \<^verbatim>\<open>None\<close> with one more hit. The next \<^verbatim>\<open>get_or_set\<close> call
  for the key, at any time, runs its factory again.
\<close>

theorem get_or_set_none_not_stored:
  assumes miss: "fst (cache_get cm key now1) = None"
    and fac: "factory w = (Inr None, w')"
  shows "get_or_set cm key factory ttl now1 now2 w = (Inr None, snd (cache_get cm key now1), w')
       \<and> st_sets (snd (cache_get cm key now1)) = st_sets cm
       \<and> (\<forall>k. k \<noteq> key \<longrightarrow> cm_cache (snd (cache_get cm key now1)) k = cm_cache cm k)
       \<and> (cm_cache (snd (cache_get cm key now1)) key = None
           \<or> (\<exists>e. cm_cache cm key = Some e \<and> ce_value e = None \<and> \<not> now1 > ce_expires_at e
                  \<and> cm_cache (snd (cache_get cm key now1)) key
                       = Some (e\<lparr>ce_hits := ce_hits e + 1\<rparr>)))
       \<and> (\<forall>factory2 ttl2 now3 now4 w2.
             fst (get_or_set (snd (cache_get cm key now1)) key factory2 ttl2 now3 now4 w2)
               = fst (factory2 w2)
           \<and> snd (snd (get_or_set (snd (cache_get cm key now1)) key factory2 ttl2 now3 now4 w2))
               = snd (factory2 w2))"
proof -
  obtain cm1 where g: "cache_get cm key now1 = (None, cm1)"
    using miss by (cases "cache_get cm key now1") auto
  have r: "get_or_set cm key factory ttl now1 now2 w = (Inr None, cm1, w')"
    using g fac by (simp add: get_or_set_def)
  have again: "fst (get_or_set cm1 key factory2 ttl2 now3 now4 w2) = fst (factory2 w2)
             \<and> snd (snd (get_or_set cm1 key factory2 ttl2 now3 now4 w2)) = snd (factory2 w2)"
    for factory2 :: "'c \<Rightarrow> (py_error + 'a option) \<times> 'c" and ttl2 now3 now4 w2
  proof -
    obtain cm2 where g2: "cache_get cm1 key now3 = (None, cm2)"
      using cache_get_none_after [OF g, of now3] by (cases "cache_get cm1 key now3") auto
    obtain res w3 where f2: "factory2 w2 = (res, w3)" by (cases "factory2 w2") auto
    show ?thesis using g2 f2
      by (cases res) (auto simp: get_or_set_def)
  qed
  show ?thesis
    using r g cache_get_sets [OF g] cache_get_others [OF g] cache_get_key [OF g] again
    by simp
qed

theorem get_or_set_none_not_stored_witness:
  "fst (cache_get expired_cache ''price'' 20) = None
   \<and> none_factory 0 = (Inr None, 1)
   \<and> get_or_set expired_cache ''price'' none_factory None 20 20 0
       = (Inr None, snd (cache_get expired_cache ''price'' 20), 1)
   \<and> snd (snd (get_or_set (snd (cache_get expired_cache ''price'' 20)) ''price'' none_factory
                  None 30 30 1)) = 2"
proof -
  have a: "fst (cache_get expired_cache ''price'' 20) = None"
    by (simp add: cache_get_def expired_cache_def)
  have b: "none_factory 0 = (Inr None, 1)" by (simp add: none_factory_def)
  note t = get_or_set_none_not_stored [where cm = expired_cache and key = "''price''"
      and ?now1.0 = 20 and factory = none_factory and w = 0 and w' = 1 and ttl = None
      and ?now2.0 = 20, OF a b]
  note again = t [THEN conjunct2, THEN conjunct2, THEN conjunct2, THEN conjunct2, rule_format,
      THEN conjunct2]
  have c: "snd (snd (get_or_set (snd (cache_get expired_cache ''price'' 20)) ''price'' none_factory
                  None 30 30 1)) = snd (none_factory 1)"
    by (rule again)
  have d: "snd (none_factory 1) = 2" by (simp add: none_factory_def)
  show ?thesis using a b c d t [THEN conjunct1] by simp
qed

subsection \<open>Circuit breaker: trip, cooldown and reset\<close>

lemma five_losses_trip:
  "record_trades (new_circuit_breaker 5 3 10 cd 0)
     [(- 1000, - 2 / 10), (- 1000, - 2 / 10), (- 1000, - 2 / 10), (- 1000, - 2 / 10),
      (- 1000, - 2 / 10)] 0 0 = tripped_breaker cd"
  by (simp add: new_circuit_breaker_def record_trade_def daily_reset_check_def
      check_conditions_def trip_def tripped_breaker_def Let_def)

text \<open>
  Claim C6, as the code has it. With \<open>cooldown_minutes = 0\<close> the automatic release is
  switched off: ten minutes after the trip \<^verbatim>\<open>can_trade\<close> still answers \<^verbatim>\<open>False\<close>.
\<close>

theorem can_trade_zero_cooldown_counterexample:
  "is_tripped (tripped_breaker 0) \<and> trip_time (tripped_breaker 0) = Some 0
   \<and> cooldown_minutes (tripped_breaker 0) \<le> (600 - 0) / 60
   \<and> can_trade (tripped_breaker 0) 600 = (False, tripped_breaker 0)"
  by (simp add: tripped_breaker_def can_trade_def)

text \<open>
  Claim C6, amended. Once tripped with a recorded trip time, \<^verbatim>\<open>can_trade\<close> returns
  \<^verbatim>\<open>False\<close> and changes nothing while fewer than \<open>cooldown_minutes\<close> have elapsed since
  the trip, and at any time when \<open>cooldown_minutes \<le> 0\<close>. With \<open>cooldown_minutes > 0\<close>
  a call made \<open>cooldown_minutes\<close> or more after the trip re-arms the breaker and returns
  \<^verbatim>\<open>True\<close>, and so does an explicit \<^verbatim>\<open>reset\<close> at any time. Re-arming clears the
  tripped flag, the reason, the trip time, \<open>consecutive_losses\<close> and \<open>api_failures\<close>,
  keeps the daily P&L sums, and \<^verbatim>\<open>can_trade\<close> is \<^verbatim>\<open>True\<close> afterwards. A trip sets the
  flag and records the time.
\<close>

theorem can_trade_after_trip:
  assumes "is_tripped cb" and "trip_time cb = Some t0"
  shows "((now - t0) / 60 < cooldown_minutes cb \<or> cooldown_minutes cb \<le> 0
            \<longrightarrow> can_trade cb now = (False, cb))
       \<and> (0 < cooldown_minutes cb \<and> cooldown_minutes cb \<le> (now - t0) / 60
            \<longrightarrow> can_trade cb now = (True, reset_internal cb))
       \<and> reset cb = (True, reset_internal cb)
       \<and> \<not> is_tripped (reset_internal cb)
       \<and> trip_reason (reset_internal cb) = None \<and> trip_time (reset_internal cb) = None
       \<and> consecutive_losses (reset_internal cb) = 0 \<and> api_failures (reset_internal cb) = 0
       \<and> daily_pnl (reset_internal cb) = daily_pnl cb
       \<and> daily_pnl_pct (reset_internal cb) = daily_pnl_pct cb
       \<and> can_trade (reset_internal cb) now' = (True, reset_internal cb)
       \<and> is_tripped (trip cb0 reason t1) \<and> trip_time (trip cb0 reason t1) = Some t1"
  using assms by (simp add: can_trade_def reset_def reset_internal_def trip_def)

theorem can_trade_after_trip_witness:
  "is_tripped (tripped_breaker 30) \<and> trip_time (tripped_breaker 30) = Some 0
   \<and> can_trade (tripped_breaker 30) 1799 = (False, tripped_breaker 30)
   \<and> can_trade (tripped_breaker 30) 1800 = (True, reset_internal (tripped_breaker 30))
   \<and> reset (tripped_breaker 30) = (True, reset_internal (tripped_breaker 30))
   \<and> consecutive_losses (reset_internal (tripped_breaker 30)) = 0"
proof -
  have a: "is_tripped (tripped_breaker 30)" and b: "trip_time (tripped_breaker 30) = Some 0"
    by (simp_all add: tripped_breaker_def)
  have c: "cooldown_minutes (tripped_breaker 30) = 30" by (simp add: tripped_breaker_def)
  from can_trade_after_trip [OF a b, where now = 1799]
       can_trade_after_trip [OF a b, where now = 1800]
  show ?thesis using a b c by simp
qed

subsection \<open>Risk manager: the trade amount and the weight cap\<close>







subsection \<open>Execution engine: the trailing stop\<close>

text \<open>
  Claim C4, as the code has it. With a negative offset the trigger level \<open>h * (1 - o)\<close>
  lies above \<open>h\<close>; a price between the two is at most the trigger level, but the code
  takes it as a new high and does not trigger.
\<close>

theorem check_trailing_stop_negative_offset_counterexample:
  "(105::real) \<le> 100 * (1 - (- (1 / 10)))
   \<and> \<not> isl (check_trailing_stop demo_engine ''BTC/KRW'' (trailing_position 100 (- (1 / 10))) 105)
   \<and> fst (projr (check_trailing_stop demo_engine ''BTC/KRW''
                   (trailing_position 100 (- (1 / 10))) 105)) = False"
  by (simp add: check_trailing_stop_def trailing_position_def demo_position_def safe_float_def
      Let_def)

lemma offset_below_highest:
  fixes h off price :: real
  assumes "0 < h" and "0 \<le> off" and "h < price"
  shows "\<not> price \<le> h * (1 - off)"
proof -
  have "h * (1 - off) \<le> h * 1"
    using assms(1,2) by (intro mult_left_mono) simp_all
  then show ?thesis using assms(3) by simp
qed

text \<open>
  Claim C4, amended. \<^verbatim>\<open>check_trailing_stop\<close> returns \<^verbatim>\<open>False\<close> and changes nothing
  for a position whose trailing record is absent or not enabled. For an enabled record
  with highest price \<open>h > 0\<close> and offset \<open>o \<ge> 0\<close> the stop triggers exactly when the
  price is at most \<open>h * (1 - o)\<close>, and the stored highest price becomes \<open>max h price\<close>.
  Whenever the call returns, the stored highest price is kept or replaced by the observed
  price, which is then strictly larger than the stored one. The ladder sweep stores the
  maximum of the highest price and the price, and arms the stop at tier 1.
\<close>

theorem check_trailing_stop_trigger:
  "(trailing pos = None \<or> (\<exists>tr. trailing pos = Some tr \<and> \<not> tr_enabled tr)
      \<longrightarrow> check_trailing_stop eng smb pos price = Inr (False, pos, eng))
   \<and> (\<forall>tr h off.
         trailing pos = Some tr \<and> tr_enabled tr \<and> tr_highest_price tr = Some h \<and> 0 < h
         \<and> tr_offset tr = Some off \<and> 0 \<le> off
         \<longrightarrow> (\<exists>pos' eng'.
                check_trailing_stop eng smb pos price = Inr (price \<le> h * (1 - off), pos', eng')
              \<and> map_option tr_highest_price (trailing pos') = Some (Some (max h price))))
   \<and> (\<forall>tr b pos' eng'.
         trailing pos = Some tr \<and> check_trailing_stop eng smb pos price = Inr (b, pos', eng')
         \<longrightarrow> (\<exists>tr'. trailing pos' = Some tr'
                \<and> (tr_highest_price tr' = tr_highest_price tr
                    \<or> (tr_highest_price tr' = Some price
                        \<and> (\<forall>h0. tr_highest_price tr = Some h0 \<longrightarrow> h0 < price)))))
   \<and> (\<forall>tr. \<exists>tr'. arm_trailing (Some tr) lvl price = Some tr'
         \<and> tr_highest_price tr' = Some (max (safe_float (tr_highest_price tr) price) price)
         \<and> (tr_enabled tr \<or> lv_id lvl = 1 \<longrightarrow> tr_enabled tr'))"
proof (intro conjI allI impI)
  assume "trailing pos = None \<or> (\<exists>tr. trailing pos = Some tr \<and> \<not> tr_enabled tr)"
  then show "check_trailing_stop eng smb pos price = Inr (False, pos, eng)"
    by (auto simp: check_trailing_stop_def)
next
  fix tr h off
  assume a: "trailing pos = Some tr \<and> tr_enabled tr \<and> tr_highest_price tr = Some h \<and> 0 < h
         \<and> tr_offset tr = Some off \<and> 0 \<le> off"
  show "\<exists>pos' eng'.
          check_trailing_stop eng smb pos price = Inr (price \<le> h * (1 - off), pos', eng')
          \<and> map_option tr_highest_price (trailing pos') = Some (Some (max h price))"
  proof (cases "h < price")
    case True
    then have "\<not> price \<le> h * (1 - off)" using a offset_below_highest by blast
    then show ?thesis using a True
      by (simp add: check_trailing_stop_def safe_float_def Let_def max_def)
  next
    case False
    then show ?thesis using a
      by (simp add: check_trailing_stop_def safe_float_def Let_def max_def)
  qed
next
  fix tr b pos' eng'
  assume a: "trailing pos = Some tr \<and> check_trailing_stop eng smb pos price = Inr (b, pos', eng')"
  then show "\<exists>tr'. trailing pos' = Some tr'
                \<and> (tr_highest_price tr' = tr_highest_price tr
                    \<or> (tr_highest_price tr' = Some price
                        \<and> (\<forall>h0. tr_highest_price tr = Some h0 \<longrightarrow> h0 < price)))"
    by (auto simp: check_trailing_stop_def safe_float_def Let_def
        split: if_splits option.splits)
next
  fix tr
  show "\<exists>tr'. arm_trailing (Some tr) lvl price = Some tr'
         \<and> tr_highest_price tr' = Some (max (safe_float (tr_highest_price tr) price) price)
         \<and> (tr_enabled tr \<or> lv_id lvl = 1 \<longrightarrow> tr_enabled tr')"
    by (simp add: arm_trailing_def Let_def)
qed

theorem check_trailing_stop_trigger_witness:
  "trailing (trailing_position 100 (15 / 1000))
     = Some \<lparr>tr_enabled = True, tr_trigger = Some (3 / 100), tr_offset = Some (15 / 1000),
             tr_highest_price = Some 100\<rparr>
   \<and> (0::real) < 100 \<and> (0::real) \<le> 15 / 1000
   \<and> fst (projr (check_trailing_stop demo_engine ''BTC/KRW''
                   (trailing_position 100 (15 / 1000)) (985 / 10))) = True
   \<and> fst (projr (check_trailing_stop demo_engine ''BTC/KRW''
                   (trailing_position 100 (15 / 1000)) 99)) = False
   \<and> check_trailing_stop demo_engine ''BTC/KRW'' demo_position 50
       = Inr (False, demo_position, demo_engine)"
proof -
  let ?tr = "\<lparr>tr_enabled = True, tr_trigger = Some (3 / 100), tr_offset = Some (15 / 1000),
             tr_highest_price = Some (100::real)\<rparr>"
  have a: "trailing (trailing_position 100 (15 / 1000)) = Some ?tr"
    by (simp add: trailing_position_def)
  have h: "trailing (trailing_position 100 (15 / 1000)) = Some ?tr \<and> tr_enabled ?tr
           \<and> tr_highest_price ?tr = Some 100 \<and> (0::real) < 100
           \<and> tr_offset ?tr = Some (15 / 1000) \<and> (0::real) \<le> 15 / 1000"
    using a by simp
  note en = check_trailing_stop_trigger [where pos = "trailing_position 100 (15 / 1000)"
      and eng = demo_engine and smb = "''BTC/KRW''", THEN conjunct2, THEN conjunct1,
      rule_format, OF h]
  have b1: "fst (projr (check_trailing_stop demo_engine ''BTC/KRW''
                   (trailing_position 100 (15 / 1000)) (985 / 10))) = True"
    using en [where price = "985 / 10"] by auto
  have b2: "fst (projr (check_trailing_stop demo_engine ''BTC/KRW''
                   (trailing_position 100 (15 / 1000)) 99)) = False"
    using en [where price = 99] by auto
  have c: "trailing demo_position = None
           \<or> (\<exists>tr. trailing demo_position = Some tr \<and> \<not> tr_enabled tr)"
    by (simp add: demo_position_def)
  note t = check_trailing_stop_trigger [where pos = demo_position and eng = demo_engine
      and smb = "''BTC/KRW''" and price = 50, THEN conjunct1, rule_format, OF c]
  show ?thesis using a b1 b2 t by simp
qed

subsection \<open>Execution engine: selling with an empty exchange balance\<close>

text \<open>
  Claim C9, as the code has it. \<^verbatim>\<open>market_sell\<close> looks the price up first: without a
  price it returns \<^verbatim>\<open>False\<close> before the balance is read, and the position and the
  pending mark stay, although the exchange balance is 0.
\<close>

theorem market_sell_no_price_counterexample:
  "get_actual_balance (demo_exchange None 0) ''BTC/KRW'' \<le> 0
   \<and> market_sell pending_engine (demo_exchange None 0) demo_config ''BTC/KRW'' demo_position 1 True
       = (False, pending_engine)
   \<and> positions (pm pending_engine) ''BTC/KRW'' = Some demo_position
   \<and> ''BTC/KRW'' \<in> sl_pending_symbols pending_engine"
  by (simp add: market_sell_def get_price_def get_actual_balance_def demo_exchange_def
      pending_engine_def demo_engine_def demo_store_def)

text \<open>
  Claim C9, amended. If a positive current price is available, the call is not diverted
  to an approval request (the mode is not SEMI, or approval is skipped, or the position
  is not at a loss), the exchange balance of the symbol resolves to \<open>\<le> 0\<close> and the stored
  entry price is not 0, then \<^verbatim>\<open>market_sell\<close> makes no call to \<^verbatim>\<open>create_limit_sell\<close>,
  sends no approval request, clears the pending mark of the symbol, deletes the stored
  position through \<^verbatim>\<open>close_position\<close> at the current price, leaves the other positions
  alone, and returns \<^verbatim>\<open>True\<close>.
\<close>

theorem market_sell_empty_balance:
  assumes price: "get_price ex smb = Some ep"
    and gate: "\<not> (cfg_mode cfg = ''SEMI'' \<and> \<not> skip \<and> gate_pnl_pct pos ep < 0)"
    and bal: "get_actual_balance ex smb \<le> 0"
    and entry: "\<forall>p. positions (pm eng) smb = Some p \<longrightarrow> entry_price p \<noteq> 0"
  shows "fst (market_sell eng ex cfg smb pos ratio skip) = True
       \<and> sell_calls (snd (market_sell eng ex cfg smb pos ratio skip)) = sell_calls eng
       \<and> approval_requests (snd (market_sell eng ex cfg smb pos ratio skip)) = approval_requests eng
       \<and> sl_pending_symbols (snd (market_sell eng ex cfg smb pos ratio skip))
            = sl_pending_symbols eng - {smb}
       \<and> positions (pm (snd (market_sell eng ex cfg smb pos ratio skip))) smb = None
       \<and> (\<forall>s. s \<noteq> smb \<longrightarrow> positions (pm (snd (market_sell eng ex cfg smb pos ratio skip))) s
                             = positions (pm eng) s)
       \<and> close_position (pm eng) smb ep
            = Inr (positions (pm eng) smb \<noteq> None, pm (snd (market_sell eng ex cfg smb pos ratio skip)))"
proof (cases "positions (pm eng) smb")
  case None
  then have c: "close_position (pm eng) smb ep = Inr (False, pm eng)"
    by (simp add: close_position_def)
  have "market_sell eng ex cfg smb pos ratio skip
          = (True, eng\<lparr>sl_pending_symbols := sl_pending_symbols eng - {smb}, pm := pm eng\<rparr>)"
    using price gate bal c by (auto simp: market_sell_def Let_def)
  then show ?thesis using None c by simp
next
  case (Some p)
  then have nz: "entry_price p \<noteq> 0" using entry by simp
  have c: "close_position (pm eng) smb ep
             = Inr (True, (pm eng)\<lparr>positions := (positions (pm eng))(smb := None)\<rparr>)"
    using Some nz by (simp add: close_position_def)
  have "market_sell eng ex cfg smb pos ratio skip
          = (True, eng\<lparr>sl_pending_symbols := sl_pending_symbols eng - {smb},
                       pm := (pm eng)\<lparr>positions := (positions (pm eng))(smb := None)\<rparr>\<rparr>)"
    using price gate bal c by (auto simp: market_sell_def Let_def)
  then show ?thesis using Some c by simp
qed

theorem market_sell_empty_balance_witness:
  "get_price (demo_exchange (Some 100) 0) ''BTC/KRW'' = Some 100
   \<and> \<not> (cfg_mode demo_config = ''SEMI'' \<and> \<not> False \<and> gate_pnl_pct demo_position 100 < 0)
   \<and> get_actual_balance (demo_exchange (Some 100) 0) ''BTC/KRW'' \<le> 0
   \<and> fst (market_sell pending_engine (demo_exchange (Some 100) 0) demo_config ''BTC/KRW''
            demo_position 1 False) = True
   \<and> positions (pm (snd (market_sell pending_engine (demo_exchange (Some 100) 0) demo_config
                            ''BTC/KRW'' demo_position 1 False))) ''BTC/KRW'' = None
   \<and> sl_pending_symbols (snd (market_sell pending_engine (demo_exchange (Some 100) 0) demo_config
                            ''BTC/KRW'' demo_position 1 False)) = {}
   \<and> sell_calls (snd (market_sell pending_engine (demo_exchange (Some 100) 0) demo_config
                            ''BTC/KRW'' demo_position 1 False)) = []"
proof -
  have a: "get_price (demo_exchange (Some 100) 0) ''BTC/KRW'' = Some 100"
    by (simp add: get_price_def demo_exchange_def)
  have b: "\<not> (cfg_mode demo_config = ''SEMI'' \<and> \<not> False \<and> gate_pnl_pct demo_position 100 < 0)"
    by (simp add: demo_config_def)
  have c: "get_actual_balance (demo_exchange (Some 100) 0) ''BTC/KRW'' \<le> 0"
    by (simp add: get_actual_balance_def demo_exchange_def)
  have d: "\<forall>p. positions (pm pending_engine) ''BTC/KRW'' = Some p \<longrightarrow> entry_price p \<noteq> 0"
    by (simp add: pending_engine_def demo_engine_def demo_store_def demo_position_def)
  have e: "sl_pending_symbols pending_engine - {''BTC/KRW''} = {}"
    and f: "sell_calls pending_engine = []"
    by (simp_all add: pending_engine_def demo_engine_def)
  from market_sell_empty_balance [OF a b c d, of 1]
  show ?thesis using a b c e f by simp
qed

text \<open>The two guards before the balance is read, and the stored entry price of zero.\<close>

lemma market_sell_semi_loss_asks:
  "market_sell pending_engine (demo_exchange (Some 90) 0) (demo_config\<lparr>cfg_mode := ''SEMI''\<rparr>)
     ''BTC/KRW'' demo_position 1 False = (True, pending_engine)"
  by (simp add: market_sell_def get_price_def request_sell_approval_def gate_pnl_pct_def
      demo_exchange_def pending_engine_def demo_engine_def demo_config_def demo_position_def)

lemma market_sell_zero_entry_stays:
  "market_sell (demo_engine\<lparr>pm := demo_store\<lparr>positions :=
        [''BTC/KRW'' \<mapsto> demo_position\<lparr>entry_price := 0\<rparr>]\<rparr>\<rparr>)
     (demo_exchange (Some 100) 0) demo_config ''BTC/KRW'' demo_position 1 True
   = (False, demo_engine\<lparr>pm := demo_store\<lparr>positions :=
        [''BTC/KRW'' \<mapsto> demo_position\<lparr>entry_price := 0\<rparr>]\<rparr>\<rparr>)"
  by (simp add: market_sell_def get_price_def get_actual_balance_def close_position_def
      demo_exchange_def demo_engine_def demo_config_def)

subsection \<open>Execution engine: the take-profit ladder\<close>

















































lemma fill_value_info_string:
  "fill_value PNone PNone (PStr ''0'' (Some 0)) (PNum 5) e = Inr e"
  "fill_value PNone PNone (PStr ''abc'' None) (PNum 5) e = Inr e"
  "fill_value PNone PNone (PStr ''108.5'' (Some (217 / 2))) PNone e = Inr (217 / 2)"
  by (simp_all add: fill_value_def py_or_def truthy_val_def float_if_str_def)

lemma fill_value_top_string:
  "s \<noteq> [] \<Longrightarrow> fill_value (PStr s p) b ia ib e = Inl TypeError"
  by (simp add: fill_value_def py_or_def truthy_val_def)


















end
